theory Spec2Isabelle
  imports Main "HOL-Library.AList"
begin

section \<open>Values of the host and of the wire\<close>

text \<open>
  The serializer handles values typed \<open>unknown\<close>: host datatypes, primitives, functions,
  object references and plain tables all live in one universe.  Numbers are only ever
  copied by the code, never computed with, so the number type is a parameter \<open>'n\<close>.
  A table is either a keyed record (\<open>Tbl\<close>, keys in insertion order) or an array
  (\<open>Arr\<close>).  \<open>Userdata\<close> stands for any host datatype the code never names.
\<close>

datatype 'n NumberSequenceKeypoint =
  NumberSequenceKeypoint (kp_Time: 'n) (kp_Value: 'n) (kp_Envelope: 'n)

datatype 'n ColorSequenceKeypoint =
  ColorSequenceKeypoint (ckp_Time: 'n) (ckp_R: 'n) (ckp_G: 'n) (ckp_B: 'n)

datatype 'n val =
    Undefined
  | Boolean bool
  | Str string
  | Number 'n
  | Function
  | InstanceRef nat
  | Vector3 'n 'n 'n
  | CFrame 'n 'n 'n 'n 'n 'n 'n 'n 'n 'n 'n 'n
  | Color3 'n 'n 'n
  | NumberSequence "'n NumberSequenceKeypoint list"
  | ColorSequence "'n ColorSequenceKeypoint list"
  | EnumItem string string
  | Vector2 'n 'n
  | NumberRange 'n 'n
  | UDim 'n 'n
  | UDim2 'n 'n 'n 'n
  | Rect 'n 'n 'n 'n
  | BrickColor nat
  | Userdata nat
  | Tbl "(string \<times> 'n val) list"
  | Arr "'n val list"

datatype error =
    FetchFailed
  | IndexError
  | ArgumentError
  | EnumLookupError string string
  | CreateError string
  | ImportError
  | ReadError string
  | WriteError string

fun typeOf :: "'n val \<Rightarrow> string" where
  "typeOf Undefined = ''nil''"
| "typeOf (Boolean _) = ''boolean''"
| "typeOf (Str _) = ''string''"
| "typeOf (Number _) = ''number''"
| "typeOf Function = ''function''"
| "typeOf (InstanceRef _) = ''Instance''"
| "typeOf (Vector3 _ _ _) = ''Vector3''"
| "typeOf (CFrame _ _ _ _ _ _ _ _ _ _ _ _) = ''CFrame''"
| "typeOf (Color3 _ _ _) = ''Color3''"
| "typeOf (NumberSequence _) = ''NumberSequence''"
| "typeOf (ColorSequence _) = ''ColorSequence''"
| "typeOf (EnumItem _ _) = ''EnumItem''"
| "typeOf (Vector2 _ _) = ''Vector2''"
| "typeOf (NumberRange _ _) = ''NumberRange''"
| "typeOf (UDim _ _) = ''UDim''"
| "typeOf (UDim2 _ _ _ _) = ''UDim2''"
| "typeOf (Rect _ _ _ _) = ''Rect''"
| "typeOf (BrickColor _) = ''BrickColor''"
| "typeOf (Userdata _) = ''userdata''"
| "typeOf (Tbl _) = ''table''"
| "typeOf (Arr _) = ''table''"

definition typeIs :: "'n val \<Rightarrow> string \<Rightarrow> bool" where
  "typeIs v t = (typeOf v = t)"

subsection \<open>Table access\<close>

text \<open>
  \<open>field t k\<close> is \<open>t.k\<close> on a value already known to be a table: a missing key reads
  as \<open>undefined\<close>.  \<open>get v k\<close> is \<open>v.k\<close> on an arbitrary value and \<open>index v i\<close> is
  \<open>v[i]\<close> (zero-based, as in the source): both raise on a value that cannot be indexed.
  A color value answers its three channels; a string answers \<open>undefined\<close>.
\<close>

fun field :: "'n val \<Rightarrow> string \<Rightarrow> 'n val" where
  "field (Tbl kvs) k = (case map_of kvs k of None \<Rightarrow> Undefined | Some v \<Rightarrow> v)"
| "field _ k = Undefined"

fun get :: "'n val \<Rightarrow> string \<Rightarrow> error + 'n val" where
  "get (Tbl kvs) k = Inr (field (Tbl kvs) k)"
| "get (Arr xs) k = Inr Undefined"
| "get (Str s) k = Inr Undefined"
| "get (Color3 r g b) k =
     (if k = ''R'' then Inr (Number r)
      else if k = ''G'' then Inr (Number g)
      else if k = ''B'' then Inr (Number b)
      else Inl IndexError)"
| "get _ k = Inl IndexError"

fun index :: "'n val \<Rightarrow> nat \<Rightarrow> error + 'n val" where
  "index (Arr xs) i = Inr (if i < length xs then xs ! i else Undefined)"
| "index (Tbl kvs) i = Inr Undefined"
| "index (Str s) i = Inr Undefined"
| "index _ i = Inl IndexError"

fun elements :: "'n val \<Rightarrow> error + 'n val list" where
  "elements (Arr xs) = Inr xs"
| "elements (Tbl []) = Inr []"
| "elements _ = Inl IndexError"

fun mapE :: "('a \<Rightarrow> error + 'b) \<Rightarrow> 'a list \<Rightarrow> error + 'b list" where
  "mapE f [] = Inr []"
| "mapE f (x # xs) =
     (case f x of
        Inl e \<Rightarrow> Inl e
      | Inr y \<Rightarrow> (case mapE f xs of Inl e \<Rightarrow> Inl e | Inr ys \<Rightarrow> Inr (y # ys)))"

subsection \<open>Host constructors\<close>

text \<open>
  The host's value constructors are outside the repository.  They are modelled as
  building the value from exactly the numbers given and rejecting any argument that is
  not a number.
\<close>

fun number_arg :: "'n val \<Rightarrow> error + 'n" where
  "number_arg (Number x) = Inr x"
| "number_arg _ = Inl ArgumentError"

definition numbers :: "'n val list \<Rightarrow> error + 'n list" where
  "numbers args = mapE number_arg args"

definition Vector3_new :: "'n val list \<Rightarrow> error + 'n val" where
  "Vector3_new args =
     (case numbers args of
        Inl e \<Rightarrow> Inl e
      | Inr ns \<Rightarrow> (case ns of [x, y, z] \<Rightarrow> Inr (Vector3 x y z) | _ \<Rightarrow> Inl ArgumentError))"

definition Vector2_new :: "'n val list \<Rightarrow> error + 'n val" where
  "Vector2_new args =
     (case numbers args of
        Inl e \<Rightarrow> Inl e
      | Inr ns \<Rightarrow> (case ns of [x, y] \<Rightarrow> Inr (Vector2 x y) | _ \<Rightarrow> Inl ArgumentError))"

definition Color3_new :: "'n val list \<Rightarrow> error + 'n val" where
  "Color3_new args =
     (case numbers args of
        Inl e \<Rightarrow> Inl e
      | Inr ns \<Rightarrow> (case ns of [r, g, b] \<Rightarrow> Inr (Color3 r g b) | _ \<Rightarrow> Inl ArgumentError))"

definition NumberRange_new :: "'n val list \<Rightarrow> error + 'n val" where
  "NumberRange_new args =
     (case numbers args of
        Inl e \<Rightarrow> Inl e
      | Inr ns \<Rightarrow> (case ns of [lo, hi] \<Rightarrow> Inr (NumberRange lo hi) | _ \<Rightarrow> Inl ArgumentError))"

definition CFrame_new :: "'n val list \<Rightarrow> error + 'n val" where
  "CFrame_new args =
     (case numbers args of
        Inl e \<Rightarrow> Inl e
      | Inr ns \<Rightarrow>
          (case ns of
             [x, y, z, r00, r01, r02, r10, r11, r12, r20, r21, r22] \<Rightarrow>
               Inr (CFrame x y z r00 r01 r02 r10 r11 r12 r20 r21 r22)
           | _ \<Rightarrow> Inl ArgumentError))"

definition NumberSequenceKeypoint_new :: "'n val list \<Rightarrow> error + 'n NumberSequenceKeypoint" where
  "NumberSequenceKeypoint_new args =
     (case numbers args of
        Inl e \<Rightarrow> Inl e
      | Inr ns \<Rightarrow>
          (case ns of [t, v, e] \<Rightarrow> Inr (NumberSequenceKeypoint t v e) | _ \<Rightarrow> Inl ArgumentError))"

definition ColorSequenceKeypoint_new :: "'n val \<Rightarrow> 'n val \<Rightarrow> error + 'n ColorSequenceKeypoint" where
  "ColorSequenceKeypoint_new t c =
     (case number_arg t of
        Inl e \<Rightarrow> Inl e
      | Inr t' \<Rightarrow>
          (case c of Color3 r g b \<Rightarrow> Inr (ColorSequenceKeypoint t' r g b) | _ \<Rightarrow> Inl ArgumentError))"

text \<open>
  The enumeration namespace of the host: each enum type with its member names.
  \<open>Enum[t][n]\<close> raises when the type or the member does not exist.
\<close>

type_synonym enums = "(string \<times> string list) list"

definition enum_lookup :: "enums \<Rightarrow> 'n val \<Rightarrow> 'n val \<Rightarrow> error + 'n val" where
  "enum_lookup E enumType enumName =
     (case (enumType, enumName) of
        (Str t, Str n) \<Rightarrow>
          (case map_of E t of
             None \<Rightarrow> Inl (EnumLookupError t n)
           | Some members \<Rightarrow>
               if n \<in> set members then Inr (EnumItem t n) else Inl (EnumLookupError t n))
      | _ \<Rightarrow> Inl ArgumentError)"

section \<open>The value codec\<close>

fun serializeProperty :: "'n val \<Rightarrow> 'n val" where
  "serializeProperty (Vector3 x y z) =
     Tbl [(''_type'', Str ''Vector3''), (''X'', Number x), (''Y'', Number y), (''Z'', Number z)]"
| "serializeProperty (CFrame x y z r00 r01 r02 r10 r11 r12 r20 r21 r22) =
     Tbl [(''_type'', Str ''CFrame''),
          (''Position'', Arr [Number x, Number y, Number z]),
          (''Rotation'', Arr [Number r00, Number r01, Number r02,
                              Number r10, Number r11, Number r12,
                              Number r20, Number r21, Number r22])]"
| "serializeProperty (Color3 r g b) =
     Tbl [(''_type'', Str ''Color3''), (''R'', Number r), (''G'', Number g), (''B'', Number b)]"
| "serializeProperty (NumberSequence kps) =
     Tbl [(''_type'', Str ''NumberSequence''),
          (''Keypoints'',
             Arr (map (\<lambda>k. Tbl [(''Time'', Number (kp_Time k)),
                                 (''Value'', Number (kp_Value k)),
                                 (''Envelope'', Number (kp_Envelope k))]) kps))]"
| "serializeProperty (ColorSequence kps) =
     Tbl [(''_type'', Str ''ColorSequence''),
          (''Keypoints'',
             Arr (map (\<lambda>k. Tbl [(''Time'', Number (ckp_Time k)),
                                 (''Value'', Tbl [(''R'', Number (ckp_R k)),
                                                  (''G'', Number (ckp_G k)),
                                                  (''B'', Number (ckp_B k))])]) kps))]"
| "serializeProperty (EnumItem enumType name) =
     Tbl [(''_type'', Str ''EnumItem''), (''EnumType'', Str enumType), (''Name'', Str name)]"
| "serializeProperty (Vector2 x y) =
     Tbl [(''_type'', Str ''Vector2''), (''X'', Number x), (''Y'', Number y)]"
| "serializeProperty (NumberRange lo hi) =
     Tbl [(''_type'', Str ''NumberRange''), (''Min'', Number lo), (''Max'', Number hi)]"
| "serializeProperty v = v"

definition number_keypoint :: "'n val \<Rightarrow> error + 'n NumberSequenceKeypoint" where
  "number_keypoint k =
     (case get k ''Time'' of
        Inl e \<Rightarrow> Inl e
      | Inr t \<Rightarrow>
          (case get k ''Value'' of
             Inl e \<Rightarrow> Inl e
           | Inr v \<Rightarrow>
               (case get k ''Envelope'' of
                  Inl e \<Rightarrow> Inl e
                | Inr en \<Rightarrow> NumberSequenceKeypoint_new [t, v, en])))"

definition color_keypoint :: "'n val \<Rightarrow> error + 'n ColorSequenceKeypoint" where
  "color_keypoint k =
     (case get k ''Time'' of
        Inl e \<Rightarrow> Inl e
      | Inr t \<Rightarrow>
          (case get k ''Value'' of
             Inl e \<Rightarrow> Inl e
           | Inr v \<Rightarrow>
               (case mapE (get v) [''R'', ''G'', ''B''] of
                  Inl e \<Rightarrow> Inl e
                | Inr rgb \<Rightarrow>
                    (case Color3_new rgb of
                       Inl e \<Rightarrow> Inl e
                     | Inr c \<Rightarrow> ColorSequenceKeypoint_new t c))))"

definition deserializeProperty :: "enums \<Rightarrow> 'n val \<Rightarrow> error + 'n val" where
  "deserializeProperty E v =
     (if typeIs v ''table'' \<and> field v ''_type'' \<noteq> Undefined then
        (let tag = field v ''_type'' in
         if tag = Str ''Vector3'' then
           Vector3_new [field v ''X'', field v ''Y'', field v ''Z'']
         else if tag = Str ''CFrame'' then
           (case mapE (index (field v ''Position'')) [0, 1, 2] of
              Inl e \<Rightarrow> Inl e
            | Inr position \<Rightarrow>
                (case mapE (index (field v ''Rotation'')) [0, 1, 2, 3, 4, 5, 6, 7, 8] of
                   Inl e \<Rightarrow> Inl e
                 | Inr rotation \<Rightarrow> CFrame_new (position @ rotation)))
         else if tag = Str ''Color3'' then
           Color3_new [field v ''R'', field v ''G'', field v ''B'']
         else if tag = Str ''NumberSequence'' then
           (case elements (field v ''Keypoints'') of
              Inl e \<Rightarrow> Inl e
            | Inr ks \<Rightarrow>
                (case mapE number_keypoint ks of
                   Inl e \<Rightarrow> Inl e
                 | Inr kps \<Rightarrow> Inr (NumberSequence kps)))
         else if tag = Str ''ColorSequence'' then
           (case elements (field v ''Keypoints'') of
              Inl e \<Rightarrow> Inl e
            | Inr ks \<Rightarrow>
                (case mapE color_keypoint ks of
                   Inl e \<Rightarrow> Inl e
                 | Inr kps \<Rightarrow> Inr (ColorSequence kps)))
         else if tag = Str ''EnumItem'' then
           enum_lookup E (field v ''EnumType'') (field v ''Name'')
         else if tag = Str ''Vector2'' then
           Vector2_new [field v ''X'', field v ''Y'']
         else if tag = Str ''NumberRange'' then
           NumberRange_new [field v ''Min'', field v ''Max'']
         else Inr v)
      else Inr v)"


section \<open>The reflection catalog\<close>

record APIMember =
  member_Name :: string
  MemberType :: string
  Tags :: "string list option"

record APIClass =
  class_Name :: string
  Members :: "APIMember list"

definition IGNORED_PROPERTIES :: "string list" where
  "IGNORED_PROPERTIES =
     [''ClassName'', ''Name'', ''Parent'', ''RobloxLocked'', ''Archivable'',
      ''Mass'', ''CenterOfMass'', ''AssemblyCenterOfMass'', ''ExtentsCFrame'', ''ExtentsSize'',
      ''MeshSize'', ''ResizeIncrement'',
      ''IsLoaded'', ''TimeLength'', ''PlaybackLoudness'', ''CollisionFidelity'',
      ''RenderFidelity'', ''DoubleSided'', ''WorldPosition'', ''WorldOrientation'',
      ''WorldCFrame'', ''Active'']"

text \<open>
  The source also declares a set \<open>READ_ONLY_PROPERTIES\<close>; no function reads it.

  The catalog is fetched over the network once and cached for the life of the process.
  \<open>http\<close> is the outcome of the two requests and of decoding the answer, should they
  be made.
\<close>

type_synonym cache = "APIClass list option"

definition fetchProperties ::
  "error + APIClass list \<Rightarrow> cache \<Rightarrow> (error + APIClass list) \<times> cache" where
  "fetchProperties http properties =
     (case properties of
        Some classes \<Rightarrow> (Inr classes, properties)
      | None \<Rightarrow>
          (case http of
             Inl e \<Rightarrow> (Inl e, None)
           | Inr classes \<Rightarrow> (Inr classes, Some classes)))"

fun hasTag :: "string list option \<Rightarrow> string \<Rightarrow> bool" where
  "hasTag None tag = False"
| "hasTag (Some tags) tag = (tag \<in> set tags)"

section \<open>The host object model\<close>

text \<open>
  A live object has a class name, a name, an attribute bag addressed by name, an
  archivable flag and ordered children.  The class name, the name and the flag are
  attributes like the others: \<open>instance[k]\<close> with \<open>k\<close> one of \<open>ClassName\<close>,
  \<open>Name\<close>, \<open>Archivable\<close> reads or writes the field.  The parent link is not
  part of an object's state here: an object is held by the list of children of its
  parent.  Reading an attribute the object does not expose raises.
\<close>

datatype 'n Instance =
  Instance (obj_ClassName: string) (obj_Name: string)
           (obj_attributes: "(string \<times> 'n val) list")
           (Archivable: bool) (GetChildren: "'n Instance list")

text \<open>
  What the code needs of the host: the class-compatibility test, the enumeration
  namespace, generic construction by class name (the attribute bag of the fresh
  object, or nothing when the class cannot be created), the mesh importer (likewise),
  and which attribute writes the host accepts.
\<close>

record 'n host =
  IsA :: "string \<Rightarrow> string \<Rightarrow> bool"
  Enum :: enums
  new_Instance :: "string \<Rightarrow> (string \<times> 'n val) list option"
  CreateMeshPartAsync :: "'n val \<Rightarrow> (string \<times> 'n val) list option"
  accepts :: "string \<Rightarrow> string \<Rightarrow> 'n val \<Rightarrow> bool"

fun attribute_of :: "'n Instance \<Rightarrow> string \<Rightarrow> 'n val option" where
  "attribute_of (Instance c n attrs a ch) name =
     (if name = ''ClassName'' then Some (Str c)
      else if name = ''Name'' then Some (Str n)
      else if name = ''Archivable'' then Some (Boolean a)
      else map_of attrs name)"

definition read_attribute :: "'n Instance \<Rightarrow> string \<Rightarrow> error + 'n val" where
  "read_attribute instance name =
     (case attribute_of instance name of
        None \<Rightarrow> Inl (ReadError name)
      | Some v \<Rightarrow> Inr v)"

text \<open>
  A write \<open>instance[name] = v\<close> raises when the host refuses it.  The class name is
  read-only.  Under \<open>Name\<close> the write is the assignment \<open>instance.Name = v\<close>
  and sets the name, which is a string; under \<open>Archivable\<close> it sets the flag,
  which is a boolean; a value of another kind is refused there.  Under \<open>Parent\<close>
  the host takes an object, and the object written to is as before, its parent link
  being set again when it is attached as a child.  Any other write the host accepts
  stores the value in the bag.
\<close>

definition write_attribute ::
  "'n host \<Rightarrow> 'n Instance \<Rightarrow> string \<Rightarrow> 'n val \<Rightarrow> error + 'n Instance" where
  "write_attribute h instance name v =
     (case instance of
        Instance c n attrs a ch \<Rightarrow>
          if name = ''ClassName'' then Inl (WriteError name)
          else if \<not> accepts h c name v then Inl (WriteError name)
          else if name = ''Name'' then
            (case v of Str s \<Rightarrow> Inr (Instance c s attrs a ch) | _ \<Rightarrow> Inl (WriteError name))
          else if name = ''Archivable'' then
            (case v of Boolean b \<Rightarrow> Inr (Instance c n attrs b ch) | _ \<Rightarrow> Inl (WriteError name))
          else if name = ''Parent'' then
            (case v of InstanceRef r \<Rightarrow> Inr (Instance c n attrs a ch) | _ \<Rightarrow> Inl (WriteError name))
          else Inr (Instance c n (AList.update name v attrs) a ch))"

fun set_Name :: "string \<Rightarrow> 'n Instance \<Rightarrow> 'n Instance" where
  "set_Name name (Instance c _ attrs a ch) = Instance c name attrs a ch"

fun add_children :: "'n Instance \<Rightarrow> 'n Instance list \<Rightarrow> 'n Instance" where
  "add_children (Instance c n attrs a ch) children = Instance c n attrs a (ch @ children)"

definition Instance_new :: "'n host \<Rightarrow> string \<Rightarrow> error + 'n Instance" where
  "Instance_new h className =
     (case new_Instance h className of
        None \<Rightarrow> Inl (CreateError className)
      | Some attrs \<Rightarrow> Inr (Instance className className attrs True []))"

definition import_mesh :: "'n host \<Rightarrow> 'n val \<Rightarrow> error + 'n Instance" where
  "import_mesh h meshId =
     (case CreateMeshPartAsync h meshId of
        None \<Rightarrow> Inl ImportError
      | Some attrs \<Rightarrow> Inr (Instance ''MeshPart'' ''MeshPart'' attrs True []))"

section \<open>Attribute discovery\<close>

text \<open>
  The inclusion test starts with a chain of comparisons of the property name;
  \<open>force_included\<close> lists the names compared, in the order of the source.
\<close>

definition force_included :: "string list" where
  "force_included =
     [''CFrame'', ''Position'', ''Orientation'', ''Rotation'',
      ''Speed'', ''SpreadAngle'', ''Rate'', ''RotSpeed'', ''Acceleration'', ''Drag'',
      ''VelocityInheritance'', ''Lifetime'', ''Size'', ''Transparency'', ''LightEmission'',
      ''LightInfluence'', ''RotSpeed'']"

definition shouldSerializeProperty :: "string \<Rightarrow> 'n val \<Rightarrow> bool" where
  "shouldSerializeProperty propertyName propertyValue =
     (if propertyName \<in> set force_included then True
      else if propertyValue = Undefined then False
      else if typeIs propertyValue ''function'' then False
      else if typeIs propertyValue ''Instance'' then False
      else if propertyName \<in> set IGNORED_PROPERTIES then False
      else
        (let propertyType = typeOf propertyValue in
         propertyType = ''boolean'' \<or> propertyType = ''string'' \<or> propertyType = ''number''
         \<or> typeIs propertyValue ''Vector3'' \<or> typeIs propertyValue ''CFrame''
         \<or> typeIs propertyValue ''Color3'' \<or> typeIs propertyValue ''Vector2''
         \<or> typeIs propertyValue ''UDim'' \<or> typeIs propertyValue ''UDim2''
         \<or> typeIs propertyValue ''NumberRange'' \<or> typeIs propertyValue ''Rect''
         \<or> typeIs propertyValue ''BrickColor'' \<or> typeIs propertyValue ''NumberSequence''
         \<or> typeIs propertyValue ''ColorSequence'' \<or> typeIs propertyValue ''EnumItem''))"

text \<open>
  The property map under construction is a table: storing \<open>undefined\<close> under a key
  removes the key.  It is kept as an association list in insertion order, which is
  also the order in which it is iterated.
\<close>

type_synonym 'n props = "(string \<times> 'n val) list"

definition map_set :: "string \<Rightarrow> 'n val \<Rightarrow> 'n props \<Rightarrow> 'n props" where
  "map_set k v m = (if v = Undefined then AList.delete k m else AList.update k v m)"

definition visit_member :: "'n Instance \<Rightarrow> APIMember \<Rightarrow> 'n props \<Rightarrow> 'n props" where
  "visit_member instance member properties =
     (if MemberType member \<noteq> ''Property'' then properties
      else if member_Name member \<in> set IGNORED_PROPERTIES then properties
      else if hasTag (Tags member) ''Deprecated'' \<or> hasTag (Tags member) ''Hidden''
              \<or> hasTag (Tags member) ''NotScriptable'' \<or> hasTag (Tags member) ''ReadOnly''
      then properties
      else
        (case read_attribute instance (member_Name member) of
           Inl _ \<Rightarrow> properties
         | Inr v \<Rightarrow>
             if shouldSerializeProperty (member_Name member) v
             then map_set (member_Name member) (serializeProperty v) properties
             else properties))"

definition visit_class ::
  "'n host \<Rightarrow> 'n Instance \<Rightarrow> APIClass \<Rightarrow> 'n props \<Rightarrow> 'n props" where
  "visit_class h instance classData properties =
     (if \<not> IsA h (obj_ClassName instance) (class_Name classData) then properties
      else fold (visit_member instance) (Members classData) properties)"

definition discover :: "'n host \<Rightarrow> APIClass list \<Rightarrow> 'n Instance \<Rightarrow> 'n props" where
  "discover h apiClasses instance = fold (visit_class h instance) apiClasses []"

definition getInstanceProperties ::
  "'n host \<Rightarrow> error + APIClass list \<Rightarrow> cache \<Rightarrow> 'n Instance
     \<Rightarrow> (error + 'n props) \<times> cache" where
  "getInstanceProperties h http properties instance =
     (case fetchProperties http properties of
        (Inl e, c) \<Rightarrow> (Inl e, c)
      | (Inr apiClasses, c) \<Rightarrow> (Inr (discover h apiClasses instance), c))"

section \<open>The tree serializer\<close>

datatype 'n SerializedInstance =
  SerializedInstance (ClassName: string) (Name: string) (Properties: "'n props")
                     (Children: "'n SerializedInstance list") (MeshId: "'n val")

text \<open>
  \<open>MeshId\<close> is optional in the source; \<open>Undefined\<close> is the absent field.
  \<open>assign_all\<close> is the loop that copies a discovered map into \<open>Properties\<close>.
\<close>

definition assign_all :: "'n props \<Rightarrow> 'n props \<Rightarrow> 'n props" where
  "assign_all properties target = fold (\<lambda>(key, v). AList.update key v) properties target"

definition read_MeshId :: "'n host \<Rightarrow> 'n Instance \<Rightarrow> error + 'n val" where
  "read_MeshId h instance =
     (if IsA h (obj_ClassName instance) ''MeshPart''
      then read_attribute instance ''MeshId''
      else Inr Undefined)"

definition attachment_pass ::
  "'n host \<Rightarrow> error + APIClass list \<Rightarrow> cache \<Rightarrow> 'n Instance
     \<Rightarrow> (error + 'n props) \<times> cache" where
  "attachment_pass h http properties instance =
     (if IsA h (obj_ClassName instance) ''Attachment'' then
        (case getInstanceProperties h http properties instance of
           (Inl e, c) \<Rightarrow> (Inl e, c)
         | (Inr discovered, c) \<Rightarrow> (Inr (assign_all discovered []), c))
      else (Inr [], properties))"

fun serializeInstance ::
  "'n host \<Rightarrow> error + APIClass list \<Rightarrow> cache \<Rightarrow> 'n Instance
     \<Rightarrow> (error + 'n SerializedInstance) \<times> cache"
and serializeChildren ::
  "'n host \<Rightarrow> error + APIClass list \<Rightarrow> cache \<Rightarrow> 'n Instance list
     \<Rightarrow> (error + 'n SerializedInstance list) \<times> cache" where
  "serializeInstance h http cache (Instance className name attrs archivable children) =
     (case read_MeshId h (Instance className name attrs archivable children) of
        Inl e \<Rightarrow> (Inl e, cache)
      | Inr meshId \<Rightarrow>
          (case attachment_pass h http cache (Instance className name attrs archivable children) of
             (Inl e, c1) \<Rightarrow> (Inl e, c1)
           | (Inr props1, c1) \<Rightarrow>
               (case getInstanceProperties h http c1
                       (Instance className name attrs archivable children) of
                  (Inl e, c2) \<Rightarrow> (Inl e, c2)
                | (Inr discovered, c2) \<Rightarrow>
                    (case serializeChildren h http c2 children of
                       (Inl e, c3) \<Rightarrow> (Inl e, c3)
                     | (Inr serializedChildren, c3) \<Rightarrow>
                         (Inr (SerializedInstance className name
                                 (assign_all discovered props1) serializedChildren meshId),
                          c3)))))"
| "serializeChildren h http cache [] = (Inr [], cache)"
| "serializeChildren h http cache (child # rest) =
     (if Archivable child then
        (case serializeInstance h http cache child of
           (Inl e, c1) \<Rightarrow> (Inl e, c1)
         | (Inr s, c1) \<Rightarrow>
             (case serializeChildren h http c1 rest of
                (Inl e, c2) \<Rightarrow> (Inl e, c2)
              | (Inr ss, c2) \<Rightarrow> (Inr (s # ss), c2)))
      else serializeChildren h http cache rest)"

section \<open>The tree deserializer\<close>

datatype warning =
    AttachmentPropertyFailed string string error
  | MeshPartFailed error
  | PropertyFailed string string error

definition set_property ::
  "'n host \<Rightarrow> 'n Instance \<Rightarrow> string \<Rightarrow> 'n val \<Rightarrow> error + 'n Instance" where
  "set_property h instance propertyName propertyValue =
     (case deserializeProperty (Enum h) propertyValue of
        Inl e \<Rightarrow> Inl e
      | Inr v \<Rightarrow> write_attribute h instance propertyName v)"

fun set_attachment_properties ::
  "'n host \<Rightarrow> 'n props \<Rightarrow> 'n Instance \<times> warning list \<Rightarrow> 'n Instance \<times> warning list" where
  "set_attachment_properties h [] (instance, log) = (instance, log)"
| "set_attachment_properties h ((propertyName, propertyValue) # rest) (instance, log) =
     (case set_property h instance propertyName propertyValue of
        Inl err \<Rightarrow>
          set_attachment_properties h rest
            (instance, log @ [AttachmentPropertyFailed propertyName (obj_Name instance) err])
      | Inr instance' \<Rightarrow> set_attachment_properties h rest (instance', log))"

fun set_properties ::
  "'n host \<Rightarrow> 'n props \<Rightarrow> 'n Instance \<times> warning list \<Rightarrow> 'n Instance \<times> warning list" where
  "set_properties h [] (instance, log) = (instance, log)"
| "set_properties h ((propertyName, propertyValue) # rest) (instance, log) =
     (if IsA h (obj_ClassName instance) ''MeshPart'' \<and> propertyName = ''MeshId''
      then set_properties h rest (instance, log)
      else
        (case set_property h instance propertyName propertyValue of
           Inl err \<Rightarrow>
             set_properties h rest
               (instance, log @ [PropertyFailed propertyName (obj_Name instance) err])
         | Inr instance' \<Rightarrow> set_properties h rest (instance', log)))"

text \<open>
  The condition \<open>data.MeshId\<close> follows the truthiness of the source language for a
  field typed \<open>string | undefined\<close>: an absent field and the empty string are false.
\<close>

definition truthy :: "'n val \<Rightarrow> bool" where
  "truthy v = (v \<noteq> Undefined \<and> v \<noteq> Boolean False \<and> v \<noteq> Str [])"

definition construct ::
  "'n host \<Rightarrow> string \<Rightarrow> string \<Rightarrow> 'n props \<Rightarrow> 'n val
     \<Rightarrow> error + 'n Instance \<times> warning list" where
  "construct h className name properties meshId =
     (if className = ''Attachment'' then
        (case Instance_new h ''Attachment'' of
           Inl e \<Rightarrow> Inl e
         | Inr instance \<Rightarrow>
             Inr (set_attachment_properties h properties (set_Name name instance, [])))
      else if className = ''MeshPart'' \<and> truthy meshId then
        (case import_mesh h meshId of
           Inr instance \<Rightarrow> Inr (set_Name name instance, [])
         | Inl err \<Rightarrow>
             (case Instance_new h className of
                Inl e \<Rightarrow> Inl e
              | Inr instance \<Rightarrow> Inr (set_Name name instance, [MeshPartFailed err])))
      else
        (case Instance_new h className of
           Inl e \<Rightarrow> Inl e
         | Inr instance \<Rightarrow> Inr (set_Name name instance, [])))"

fun deserializeInstance ::
  "'n host \<Rightarrow> 'n SerializedInstance \<Rightarrow> error + 'n Instance \<times> warning list"
and deserializeChildren ::
  "'n host \<Rightarrow> 'n SerializedInstance list \<Rightarrow> error + 'n Instance list \<times> warning list" where
  "deserializeInstance h (SerializedInstance className name properties children meshId) =
     (case construct h className name properties meshId of
        Inl e \<Rightarrow> Inl e
      | Inr built \<Rightarrow>
          (case set_properties h properties built of
             (instance, log) \<Rightarrow>
               (case deserializeChildren h children of
                  Inl e \<Rightarrow> Inl e
                | Inr (kids, log') \<Rightarrow> Inr (add_children instance kids, log @ log'))))"
| "deserializeChildren h [] = Inr ([], [])"
| "deserializeChildren h (childData # rest) =
     (case deserializeInstance h childData of
        Inl e \<Rightarrow> Inl e
      | Inr (child, log) \<Rightarrow>
          (case deserializeChildren h rest of
             Inl e \<Rightarrow> Inl e
           | Inr (kids, log') \<Rightarrow> Inr (child # kids, log @ log')))"

text \<open>
  The text framing adds nothing of its own: \<open>toJSON\<close> hands the serialized node to
  the host's encoder and \<open>fromJSON\<close> hands the decoded node to
  \<open>deserializeInstance\<close>.
\<close>

section \<open>Vocabulary of the properties\<close>

subsection \<open>Kinds of values\<close>

text \<open>
  The eight structured kinds, the tags the decoder knows, the kinds the inclusion test
  of discovery admits, and the values of the wire grammar: a primitive, or a record
  tagged with one of the eight tags.
\<close>

definition structured_kind :: "'n val \<Rightarrow> bool" where
  "structured_kind v =
     (typeOf v \<in> set [''Vector3'', ''Vector2'', ''CFrame'', ''Color3'', ''NumberRange'',
                        ''NumberSequence'', ''ColorSequence'', ''EnumItem''])"

definition known_tags :: "string list" where
  "known_tags = [''Vector3'', ''CFrame'', ''Color3'', ''NumberSequence'', ''ColorSequence'',
                 ''EnumItem'', ''Vector2'', ''NumberRange'']"

definition serializable_kind :: "'n val \<Rightarrow> bool" where
  "serializable_kind v =
     (typeOf v \<in> set [''boolean'', ''string'', ''number'', ''Vector3'', ''CFrame'', ''Color3'',
                        ''Vector2'', ''UDim'', ''UDim2'', ''NumberRange'', ''Rect'', ''BrickColor'',
                        ''NumberSequence'', ''ColorSequence'', ''EnumItem''])"

definition wire_value :: "'n val \<Rightarrow> bool" where
  "wire_value v =
     (typeOf v \<in> set [''boolean'', ''string'', ''number'']
      \<or> (typeIs v ''table'' \<and> field v ''_type'' \<in> Str ` set known_tags))"

text \<open>A live enumeration member is one the host's namespace resolves.\<close>

definition enum_member :: "enums \<Rightarrow> string \<Rightarrow> string \<Rightarrow> bool" where
  "enum_member E t n = (case map_of E t of None \<Rightarrow> False | Some members \<Rightarrow> n \<in> set members)"

fun enum_resolves :: "enums \<Rightarrow> 'n val \<Rightarrow> bool" where
  "enum_resolves E (EnumItem t n) = enum_member E t n"
| "enum_resolves E _ = True"

subsection \<open>Discovery\<close>

text \<open>
  A member passes the catalog when the three gates that precede the read let it
  through.  \<open>retained_value\<close> is what the read and the inclusion test then store
  for a name; \<open>listed_names\<close> are the names some class of the object lists with a
  member that passes.  \<open>agrees\<close> is the invariant of the two discovery loops: the
  keys are distinct, and the map holds the retained value of exactly the names
  visited so far.
\<close>

definition passes_catalog :: "APIMember \<Rightarrow> bool" where
  "passes_catalog member =
     (MemberType member = ''Property''
      \<and> member_Name member \<notin> set IGNORED_PROPERTIES
      \<and> \<not> hasTag (Tags member) ''Deprecated'' \<and> \<not> hasTag (Tags member) ''Hidden''
      \<and> \<not> hasTag (Tags member) ''NotScriptable'' \<and> \<not> hasTag (Tags member) ''ReadOnly'')"

definition retained_value :: "'n Instance \<Rightarrow> string \<Rightarrow> 'n val option" where
  "retained_value x k =
     (case read_attribute x k of
        Inl _ \<Rightarrow> None
      | Inr v \<Rightarrow>
          if shouldSerializeProperty k v \<and> v \<noteq> Undefined then Some (serializeProperty v)
          else None)"

definition listed_names :: "'n host \<Rightarrow> APIClass list \<Rightarrow> 'n Instance \<Rightarrow> string set" where
  "listed_names h apiClasses x =
     {member_Name m | m c. c \<in> set apiClasses \<and> IsA h (obj_ClassName x) (class_Name c)
                          \<and> m \<in> set (Members c) \<and> passes_catalog m}"

definition listed :: "'n host \<Rightarrow> APIClass list \<Rightarrow> 'n Instance \<Rightarrow> string \<Rightarrow> bool" where
  "listed h apiClasses x name =
     list_ex (\<lambda>c. IsA h (obj_ClassName x) (class_Name c)
                  \<and> list_ex (\<lambda>m. member_Name m = name \<and> passes_catalog m) (Members c))
       apiClasses"

definition agrees :: "'n Instance \<Rightarrow> string set \<Rightarrow> 'n props \<Rightarrow> bool" where
  "agrees x K ps =
     (distinct (map fst ps)
      \<and> (\<forall>k. map_of ps k = (if k \<in> K then retained_value x k else None)))"

text \<open>The catalog that a fetch from a given cache state yields.\<close>

definition fetches :: "error + APIClass list \<Rightarrow> APIClass list \<Rightarrow> cache \<Rightarrow> bool" where
  "fetches http api c = (fst (fetchProperties http c) = Inr api)"

subsection \<open>Serialization in a single pass\<close>

text \<open>
  The serializer as the specification words it: per node, one run of discovery, whose
  encoded attributes become the node's \<open>Properties\<close>; no extra pass for attachments.
\<close>

fun serialize_once ::
  "'n host \<Rightarrow> error + APIClass list \<Rightarrow> cache \<Rightarrow> 'n Instance
     \<Rightarrow> (error + 'n SerializedInstance) \<times> cache"
and serialize_once_children ::
  "'n host \<Rightarrow> error + APIClass list \<Rightarrow> cache \<Rightarrow> 'n Instance list
     \<Rightarrow> (error + 'n SerializedInstance list) \<times> cache" where
  "serialize_once h http cache (Instance className name attrs archivable children) =
     (case read_MeshId h (Instance className name attrs archivable children) of
        Inl e \<Rightarrow> (Inl e, cache)
      | Inr meshId \<Rightarrow>
          (case getInstanceProperties h http cache
                  (Instance className name attrs archivable children) of
             (Inl e, c1) \<Rightarrow> (Inl e, c1)
           | (Inr discovered, c1) \<Rightarrow>
               (case serialize_once_children h http c1 children of
                  (Inl e, c2) \<Rightarrow> (Inl e, c2)
                | (Inr serializedChildren, c2) \<Rightarrow>
                    (Inr (SerializedInstance className name discovered serializedChildren meshId),
                     c2))))"
| "serialize_once_children h http cache [] = (Inr [], cache)"
| "serialize_once_children h http cache (child # rest) =
     (if Archivable child then
        (case serialize_once h http cache child of
           (Inl e, c1) \<Rightarrow> (Inl e, c1)
         | (Inr s, c1) \<Rightarrow>
             (case serialize_once_children h http c1 rest of
                (Inl e, c2) \<Rightarrow> (Inl e, c2)
              | (Inr ss, c2) \<Rightarrow> (Inr (s # ss), c2)))
      else serialize_once_children h http cache rest)"

subsection \<open>Pruning\<close>

text \<open>
  \<open>prune\<close> removes every non-archivable descendant with its whole subtree; an
  outline is the tree of class names and names.
\<close>

fun prune :: "'n Instance \<Rightarrow> 'n Instance" where
  "prune (Instance className name attrs archivable children) =
     Instance className name attrs archivable (map prune (filter Archivable children))"

datatype outline = Outline string string "outline list"

fun instance_outline :: "'n Instance \<Rightarrow> outline" where
  "instance_outline (Instance className name attrs archivable children) =
     Outline className name (map instance_outline children)"

fun node_outline :: "'n SerializedInstance \<Rightarrow> outline" where
  "node_outline (SerializedInstance className name properties children meshId) =
     Outline className name (map node_outline children)"

subsection \<open>Reconstruction\<close>

text \<open>
  \<open>writable\<close> tells whether the write of a decoded value goes through, and
  \<open>decoded_write\<close> is the outcome of one attribute: decode the stored value, then
  offer it to the host.  \<open>stored\<close> is the object after a write that went through.
  \<open>skipped\<close> is the test that makes the general loop pass over a key.
  \<open>write_loop\<close> is a loop over the properties, with the keys it passes over as a
  parameter: it returns the object and the failures it reported, each with the key,
  the name the object had at that moment and the cause.  \<open>general_loop\<close> is the
  general loop of one node, run on the freshly created object after the attachment
  loop where there is one; \<open>final_object\<close> is the object it leaves, before the
  children are attached, and \<open>final_failures\<close> are the failures it reported.
\<close>

definition writable :: "'n host \<Rightarrow> string \<Rightarrow> string \<Rightarrow> 'n val \<Rightarrow> bool" where
  "writable h className k d =
     (if k = ''ClassName'' then False
      else if \<not> accepts h className k d then False
      else if k = ''Name'' then typeIs d ''string''
      else if k = ''Archivable'' then typeIs d ''boolean''
      else if k = ''Parent'' then typeIs d ''Instance''
      else True)"

definition decoded_write :: "'n host \<Rightarrow> string \<Rightarrow> string \<Rightarrow> 'n val \<Rightarrow> error + 'n val" where
  "decoded_write h className k v =
     (case deserializeProperty (Enum h) v of
        Inl e \<Rightarrow> Inl e
      | Inr d \<Rightarrow> if writable h className k d then Inr d else Inl (WriteError k))"

fun stored :: "string \<Rightarrow> 'n val \<Rightarrow> 'n Instance \<Rightarrow> 'n Instance" where
  "stored k d (Instance c n attrs a ch) =
     (if k = ''Name'' then Instance c (case d of Str s \<Rightarrow> s | _ \<Rightarrow> n) attrs a ch
      else if k = ''Archivable'' then Instance c n attrs (case d of Boolean b \<Rightarrow> b | _ \<Rightarrow> a) ch
      else if k = ''Parent'' then Instance c n attrs a ch
      else Instance c n (AList.update k d attrs) a ch)"

definition skipped :: "'n host \<Rightarrow> string \<Rightarrow> string \<Rightarrow> bool" where
  "skipped h className k = (IsA h className ''MeshPart'' \<and> k = ''MeshId'')"

type_synonym failure = "string \<times> string \<times> error"

fun write_loop ::
  "'n host \<Rightarrow> (string \<Rightarrow> bool) \<Rightarrow> 'n props \<Rightarrow> 'n Instance \<times> failure list
     \<Rightarrow> 'n Instance \<times> failure list" where
  "write_loop h skip [] (x, fl) = (x, fl)"
| "write_loop h skip ((k, v) # rest) (x, fl) =
     (if skip k then write_loop h skip rest (x, fl)
      else
        (case decoded_write h (obj_ClassName x) k v of
           Inl e \<Rightarrow> write_loop h skip rest (x, fl @ [(k, obj_Name x, e)])
         | Inr d \<Rightarrow> write_loop h skip rest (stored k d x, fl)))"

definition general_loop :: "'n host \<Rightarrow> 'n props \<Rightarrow> 'n Instance \<Rightarrow> 'n Instance \<times> failure list" where
  "general_loop h props fresh =
     write_loop h (skipped h (obj_ClassName fresh)) props
       (if obj_ClassName fresh = ''Attachment''
        then fst (write_loop h (\<lambda>_. False) props (fresh, []))
        else fresh, [])"

definition final_object :: "'n host \<Rightarrow> 'n props \<Rightarrow> 'n Instance \<Rightarrow> 'n Instance" where
  "final_object h props fresh = fst (general_loop h props fresh)"

definition final_failures :: "'n host \<Rightarrow> 'n props \<Rightarrow> 'n Instance \<Rightarrow> failure list" where
  "final_failures h props fresh = snd (general_loop h props fresh)"

text \<open>
  A node is constructible when the host can create the object of every node of the
  tree.  Creation is the construction with no properties to set.
\<close>

fun constructible :: "'n host \<Rightarrow> 'n SerializedInstance \<Rightarrow> bool" where
  "constructible h (SerializedInstance className name properties children meshId) =
     ((case construct h className name [] meshId of Inl _ \<Rightarrow> False | Inr _ \<Rightarrow> True)
      \<and> list_all (constructible h) children)"

subsection \<open>The tree round trip\<close>

text \<open>
  The hypotheses of the round trip, each over the whole tree: every descendant is
  archivable; every attribute discovery retains is of a kind the inclusion test admits
  by kind, an enumeration member being one the host resolves; the host accepts every
  write the loop attempts; and the object built for a mesh part already carries the
  mesh identity that was serialized, since the loop does not write that key.
\<close>

fun all_archivable :: "'n Instance \<Rightarrow> bool" where
  "all_archivable (Instance className name attrs archivable children) =
     list_all (\<lambda>child. Archivable child \<and> all_archivable child) children"

fun retained_serializable :: "'n host \<Rightarrow> APIClass list \<Rightarrow> 'n Instance \<Rightarrow> bool" where
  "retained_serializable h api (Instance className name attrs archivable children) =
     (list_all (\<lambda>(k, e). case map_of attrs k of
                            None \<Rightarrow> False
                          | Some v \<Rightarrow> serializable_kind v \<and> enum_resolves (Enum h) v)
        (discover h api (Instance className name attrs archivable children))
      \<and> list_all (retained_serializable h api) children)"

fun writes_accepted :: "'n host \<Rightarrow> 'n SerializedInstance \<Rightarrow> bool" where
  "writes_accepted h (SerializedInstance className name properties children meshId) =
     (list_all (\<lambda>(k, v). skipped h className k
                  \<or> (case deserializeProperty (Enum h) v of
                        Inl _ \<Rightarrow> True
                      | Inr d \<Rightarrow> accepts h className k d)) properties
      \<and> list_all (writes_accepted h) children)"

fun mesh_identity_kept :: "'n host \<Rightarrow> 'n SerializedInstance \<Rightarrow> bool" where
  "mesh_identity_kept h (SerializedInstance className name properties children meshId) =
     ((if skipped h className ''MeshId'' then
         (case map_of properties ''MeshId'' of
            None \<Rightarrow> True
          | Some e \<Rightarrow>
              (case (construct h className name [] meshId, deserializeProperty (Enum h) e) of
                 (Inr (fresh, _), Inr d) \<Rightarrow> map_of (obj_attributes fresh) ''MeshId'' = Some d
               | _ \<Rightarrow> False))
       else True)
      \<and> list_all (mesh_identity_kept h) children)"

text \<open>
  Two objects are the same, as far as serialization sees: equal class names and names,
  every attribute discovery retains on the first has the same value on the second, and
  the children are the same, one for one and in order.  \<open>round_trips\<close> is the
  round trip of one object from any cache state, in the form the induction over the
  tree uses.
\<close>

fun same_object :: "'n host \<Rightarrow> APIClass list \<Rightarrow> 'n Instance \<Rightarrow> 'n Instance \<Rightarrow> bool" where
  "same_object h api (Instance className name attrs archivable children) rebuilt =
     (obj_ClassName rebuilt = className \<and> obj_Name rebuilt = name
      \<and> list_all (\<lambda>(k, e). map_of (obj_attributes rebuilt) k = map_of attrs k)
          (discover h api (Instance className name attrs archivable children))
      \<and> list_all2 (same_object h api) children (GetChildren rebuilt))"

definition round_trips ::
  "'n host \<Rightarrow> error + APIClass list \<Rightarrow> APIClass list \<Rightarrow> 'n Instance \<Rightarrow> bool" where
  "round_trips h http api x =
     (\<forall>cache node c'.
        fetches http api cache \<longrightarrow> serialize_once h http cache x = (Inr node, c') \<longrightarrow>
        all_archivable x \<longrightarrow> retained_serializable h api x \<longrightarrow>
        constructible h node \<longrightarrow> writes_accepted h node \<longrightarrow> mesh_identity_kept h node \<longrightarrow>
        (\<exists>y log. deserializeInstance h node = Inr (y, log) \<and> same_object h api x y))"

section \<open>Example objects\<close>

text \<open>
  A small host: parts and mesh parts are base parts, everything is an instance; one
  enumeration; four creatable classes; an importer that knows one mesh; and a host
  that refuses to have \<open>Locked\<close> written.
\<close>

definition demo_host :: "int host" where
  "demo_host =
     \<lparr> IsA = (\<lambda>c a. a = c \<or> a = ''Instance''
                    \<or> (a = ''BasePart'' \<and> (c = ''Part'' \<or> c = ''MeshPart''))),
       Enum = [(''Material'', [''Plastic'', ''Wood''])],
       new_Instance = (\<lambda>c. if c \<in> set [''Part'', ''MeshPart'', ''Attachment'', ''Folder'']
                            then Some [] else None),
       CreateMeshPartAsync = (\<lambda>m. if m = Str ''rbxassetid://123''
                                   then Some [(''MeshId'', m)] else None),
       accepts = (\<lambda>c k v. k \<noteq> ''Locked'') \<rparr>"

text \<open>The same host with an importer that accepts any reference.\<close>

definition eager_host :: "int host" where
  "eager_host = demo_host \<lparr> CreateMeshPartAsync := (\<lambda>m. Some [(''MeshId'', m)]) \<rparr>"

definition demo_catalog :: "APIClass list" where
  "demo_catalog =
     [\<lparr> class_Name = ''Instance'',
        Members = [\<lparr> member_Name = ''Name'', MemberType = ''Property'', Tags = None \<rparr>,
                   \<lparr> member_Name = ''ClassName'', MemberType = ''Property'',
                     Tags = Some [''ReadOnly''] \<rparr>,
                   \<lparr> member_Name = ''Destroy'', MemberType = ''Function'', Tags = None \<rparr>] \<rparr>,
      \<lparr> class_Name = ''BasePart'',
        Members = [\<lparr> member_Name = ''Size'', MemberType = ''Property'', Tags = None \<rparr>,
                   \<lparr> member_Name = ''Color'', MemberType = ''Property'', Tags = None \<rparr>,
                   \<lparr> member_Name = ''Material'', MemberType = ''Property'', Tags = None \<rparr>,
                   \<lparr> member_Name = ''Anchored'', MemberType = ''Property'', Tags = None \<rparr>,
                   \<lparr> member_Name = ''Mass'', MemberType = ''Property'',
                     Tags = Some [''ReadOnly''] \<rparr>] \<rparr>,
      \<lparr> class_Name = ''MeshPart'',
        Members = [\<lparr> member_Name = ''MeshId'', MemberType = ''Property'', Tags = None \<rparr>] \<rparr>,
      \<lparr> class_Name = ''Attachment'',
        Members = [\<lparr> member_Name = ''CFrame'', MemberType = ''Property'', Tags = None \<rparr>,
                   \<lparr> member_Name = ''Visible'', MemberType = ''Property'', Tags = None \<rparr>] \<rparr>]"

definition demo_attachment :: "int Instance" where
  "demo_attachment =
     Instance ''Attachment'' ''A1''
       [(''CFrame'', CFrame 0 1 0 1 0 0 0 1 0 0 0 1), (''Visible'', Boolean False)] True []"

definition demo_attachment_node :: "int SerializedInstance" where
  "demo_attachment_node =
     SerializedInstance ''Attachment'' ''A1''
       [(''CFrame'', Tbl [(''_type'', Str ''CFrame''),
                          (''Position'', Arr [Number 0, Number 1, Number 0]),
                          (''Rotation'', Arr [Number 1, Number 0, Number 0, Number 0, Number 1,
                                              Number 0, Number 0, Number 0, Number 1])]),
        (''Visible'', Boolean False)] [] Undefined"

definition demo_tree :: "int Instance" where
  "demo_tree =
     Instance ''Part'' ''Block''
       [(''Size'', Vector3 4 1 2), (''Color'', Color3 1 0 0),
        (''Material'', EnumItem ''Material'' ''Wood''), (''Anchored'', Boolean True),
        (''Mass'', Number 5)]
       False
       [demo_attachment,
        Instance ''MeshPart'' ''Mesh''
          [(''MeshId'', Str ''rbxassetid://123''), (''Size'', Vector3 1 1 1)] True []]"

definition demo_node :: "int SerializedInstance" where
  "demo_node =
     SerializedInstance ''Part'' ''Block''
       [(''Size'', Tbl [(''_type'', Str ''Vector3''), (''X'', Number 4), (''Y'', Number 1),
                        (''Z'', Number 2)]),
        (''Color'', Tbl [(''_type'', Str ''Color3''), (''R'', Number 1), (''G'', Number 0),
                         (''B'', Number 0)]),
        (''Material'', Tbl [(''_type'', Str ''EnumItem''), (''EnumType'', Str ''Material''),
                            (''Name'', Str ''Wood'')]),
        (''Anchored'', Boolean True)]
       [demo_attachment_node,
        SerializedInstance ''MeshPart'' ''Mesh''
          [(''Size'', Tbl [(''_type'', Str ''Vector3''), (''X'', Number 1), (''Y'', Number 1),
                           (''Z'', Number 1)]),
           (''MeshId'', Str ''rbxassetid://123'')] [] (Str ''rbxassetid://123'')]
       Undefined"

definition demo_rebuilt :: "int Instance" where
  "demo_rebuilt =
     Instance ''Part'' ''Block''
       [(''Size'', Vector3 4 1 2), (''Color'', Color3 1 0 0),
        (''Material'', EnumItem ''Material'' ''Wood''), (''Anchored'', Boolean True)]
       True
       [demo_attachment,
        Instance ''MeshPart'' ''Mesh''
          [(''MeshId'', Str ''rbxassetid://123''), (''Size'', Vector3 1 1 1)] True []]"

text \<open>A catalog that marks \<open>Size\<close> deprecated, and a part whose size is readable.\<close>

definition deprecated_size_catalog :: "APIClass list" where
  "deprecated_size_catalog =
     [\<lparr> class_Name = ''BasePart'',
        Members = [\<lparr> member_Name = ''Size'', MemberType = ''Property'',
                     Tags = Some [''Deprecated''] \<rparr>] \<rparr>]"

definition sized_part :: "int Instance" where
  "sized_part = Instance ''Part'' ''Block'' [(''Size'', Vector3 4 1 2)] True []"

text \<open>A part whose \<open>Size\<close> holds a host datatype the code never names.\<close>

definition size_member :: APIMember where
  "size_member = \<lparr> member_Name = ''Size'', MemberType = ''Property'', Tags = None \<rparr>"

definition size_class :: APIClass where
  "size_class = \<lparr> class_Name = ''BasePart'', Members = [size_member] \<rparr>"

definition opaque_part :: "int Instance" where
  "opaque_part = Instance ''Part'' ''Block'' [(''Size'', Userdata 7)] True []"

text \<open>A part with a brick color, and the catalog entries for it.\<close>

definition brick_catalog :: "APIClass list" where
  "brick_catalog =
     [\<lparr> class_Name = ''BasePart'',
        Members = [\<lparr> member_Name = ''BrickColor'', MemberType = ''Property'', Tags = None \<rparr>,
                   \<lparr> member_Name = ''Size'', MemberType = ''Property'', Tags = None \<rparr>] \<rparr>]"

definition brick_part :: "int Instance" where
  "brick_part = Instance ''Part'' ''Block''
                  [(''BrickColor'', BrickColor 194), (''Size'', Vector3 4 1 2)] True []"

text \<open>A tree with non-archivable objects at two depths, each with children of its own.\<close>

definition archive_tree :: "int Instance" where
  "archive_tree =
     Instance ''Folder'' ''Root'' [] True
       [Instance ''Folder'' ''Kept'' [] True
          [Instance ''Folder'' ''Dropped'' [] False [Instance ''Folder'' ''Deep'' [] True []],
           Instance ''Folder'' ''Leaf'' [] True []],
        Instance ''Folder'' ''Transient'' [] False [Instance ''Folder'' ''Below'' [] True []],
        Instance ''Folder'' ''Last'' [] True []]"

definition archive_node :: "int SerializedInstance" where
  "archive_node =
     SerializedInstance ''Folder'' ''Root'' []
       [SerializedInstance ''Folder'' ''Kept'' []
          [SerializedInstance ''Folder'' ''Leaf'' [] [] Undefined] Undefined,
        SerializedInstance ''Folder'' ''Last'' [] [] Undefined]
       Undefined"







text \<open>A node naming an enumeration member the host does not have.\<close>

definition stale_enum :: "int val" where
  "stale_enum = Tbl [(''_type'', Str ''EnumItem''), (''EnumType'', Str ''Material''),
                     (''Name'', Str ''Unobtainium'')]"

definition stale_enum_node :: "int SerializedInstance" where
  "stale_enum_node =
     SerializedInstance ''Part'' ''Block''
       [(''Material'', stale_enum), (''Anchored'', Boolean True)]
       [demo_attachment_node] Undefined"

definition stale_enum_rebuilt :: "int Instance" where
  "stale_enum_rebuilt =
     Instance ''Part'' ''Block'' [(''Anchored'', Boolean True)] True [demo_attachment]"

text \<open>
  Mesh parts: one whose mesh the importer knows, one it does not know, and one with an
  empty mesh reference.  Each also lists \<open>MeshId\<close> among its properties.
\<close>

definition mesh_properties :: "int props" where
  "mesh_properties = [(''MeshId'', Str ''rbxassetid://999''), (''Anchored'', Boolean True)]"

section \<open>Properties of the value codec\<close>

lemma number_keypoints_roundtrip:
  "mapE number_keypoint
     (map (\<lambda>k. Tbl [(''Time'', Number (kp_Time k)), (''Value'', Number (kp_Value k)),
                     (''Envelope'', Number (kp_Envelope k))]) kps) = Inr kps"
  by (induction kps) (simp_all add: number_keypoint_def NumberSequenceKeypoint_new_def numbers_def)

lemma color_keypoints_roundtrip:
  "mapE color_keypoint
     (map (\<lambda>k. Tbl [(''Time'', Number (ckp_Time k)),
                     (''Value'', Tbl [(''R'', Number (ckp_R k)), (''G'', Number (ckp_G k)),
                                      (''B'', Number (ckp_B k))])]) kps) = Inr kps"
  by (induction kps)
     (simp_all add: color_keypoint_def ColorSequenceKeypoint_new_def Color3_new_def numbers_def)

lemma decode_encode_structured:
  assumes "structured_kind v" and "enum_resolves E v"
  shows "deserializeProperty E (serializeProperty v) = Inr v"
proof (cases v)
  case (Vector3 x y z)
  then show ?thesis
    by (simp add: deserializeProperty_def typeIs_def Vector3_new_def numbers_def)
next
  case (CFrame x y z r00 r01 r02 r10 r11 r12 r20 r21 r22)
  then show ?thesis
    by (simp add: deserializeProperty_def typeIs_def CFrame_new_def numbers_def)
next
  case (Color3 r g b)
  then show ?thesis
    by (simp add: deserializeProperty_def typeIs_def Color3_new_def numbers_def)
next
  case (NumberSequence kps)
  then show ?thesis
    by (simp add: deserializeProperty_def typeIs_def number_keypoints_roundtrip)
next
  case (ColorSequence kps)
  then show ?thesis
    by (simp add: deserializeProperty_def typeIs_def color_keypoints_roundtrip)
next
  case (EnumItem t n)
  with assms(2) show ?thesis
    by (auto simp add: deserializeProperty_def typeIs_def enum_lookup_def enum_member_def
             split: option.splits)
next
  case (Vector2 x y)
  then show ?thesis
    by (simp add: deserializeProperty_def typeIs_def Vector2_new_def numbers_def)
next
  case (NumberRange lo hi)
  then show ?thesis
    by (simp add: deserializeProperty_def typeIs_def NumberRange_new_def numbers_def)
qed (use assms(1) in \<open>simp_all add: structured_kind_def\<close>)

text \<open>
  Claim C1.  For a value of one of the eight structured kinds (3-vector, 2-vector,
  transform, color, range, numeric curve, color curve, enumeration member), decoding
  its encoding gives the value back, every numeric component equal; for an
  enumeration member this assumes that the host still has the enum type and member.
\<close>

theorem codec_roundtrip:
  "structured_kind v \<Longrightarrow> enum_resolves E v
     \<Longrightarrow> deserializeProperty E (serializeProperty v) = Inr v"
  by (rule decode_encode_structured)

theorem codec_roundtrip_witness:
  "structured_kind (EnumItem ''Material'' ''Wood'' :: int val)
   \<and> enum_resolves [(''Material'', [''Plastic'', ''Wood''])] (EnumItem ''Material'' ''Wood'' :: int val)
   \<and> deserializeProperty [(''Material'', [''Plastic'', ''Wood''])]
        (serializeProperty (EnumItem ''Material'' ''Wood'' :: int val))
       = Inr (EnumItem ''Material'' ''Wood'')
   \<and> deserializeProperty []
        (serializeProperty (CFrame 1 2 3 1 0 0 0 1 0 0 0 (1 :: int)))
       = Inr (CFrame 1 2 3 1 0 0 0 1 0 0 0 1)
   \<and> deserializeProperty []
        (serializeProperty (NumberSequence [NumberSequenceKeypoint 0 1 0,
                                            NumberSequenceKeypoint 1 (0 :: int) 0]))
       = Inr (NumberSequence [NumberSequenceKeypoint 0 1 0, NumberSequenceKeypoint 1 0 0])"
proof -
  have k1: "structured_kind (EnumItem ''Material'' ''Wood'' :: int val)"
    by (simp add: structured_kind_def)
  have e1: "enum_resolves [(''Material'', [''Plastic'', ''Wood''])]
              (EnumItem ''Material'' ''Wood'' :: int val)"
    by (simp add: enum_member_def)
  have k2: "structured_kind (CFrame 1 2 3 1 0 0 0 1 0 0 0 (1 :: int))"
    by (simp add: structured_kind_def)
  have k3: "structured_kind (NumberSequence [NumberSequenceKeypoint 0 1 0,
                                             NumberSequenceKeypoint 1 (0 :: int) 0])"
    by (simp add: structured_kind_def)
  show ?thesis
    using k1 e1 codec_roundtrip [OF k1 e1] codec_roundtrip [OF k2, of "[]"]
      codec_roundtrip [OF k3, of "[]"]
    by simp
qed

text \<open>
  Claim C8.  A table whose \<open>_type\<close> is none of the eight known tags decodes to itself
  and raises nothing; so does a value that is not a table, and a table without a
  \<open>_type\<close> field.
\<close>

theorem unknown_tag_passthrough:
  "(typeIs v ''table'' \<and> field v ''_type'' \<noteq> Undefined
      \<and> field v ''_type'' \<notin> Str ` set known_tags \<longrightarrow> deserializeProperty E v = Inr v)
   \<and> (\<not> typeIs v ''table'' \<longrightarrow> deserializeProperty E v = Inr v)
   \<and> (field v ''_type'' = Undefined \<longrightarrow> deserializeProperty E v = Inr v)"
  by (simp add: deserializeProperty_def known_tags_def Let_def)

theorem unknown_tag_passthrough_witness:
  "deserializeProperty [] (Tbl [(''_type'', Str ''UDim2''), (''X'', Number (1 :: int))])
     = Inr (Tbl [(''_type'', Str ''UDim2''), (''X'', Number 1)])
   \<and> deserializeProperty [] (Str ''hello'' :: int val) = Inr (Str ''hello'')
   \<and> deserializeProperty [] (Tbl [(''X'', Number (1 :: int))]) = Inr (Tbl [(''X'', Number 1)])"
proof -
  have a: "typeIs (Tbl [(''_type'', Str ''UDim2''), (''X'', Number (1 :: int))]) ''table''
           \<and> field (Tbl [(''_type'', Str ''UDim2''), (''X'', Number (1 :: int))]) ''_type'' \<noteq> Undefined
           \<and> field (Tbl [(''_type'', Str ''UDim2''), (''X'', Number (1 :: int))]) ''_type''
               \<notin> Str ` set known_tags"
    by (simp add: typeIs_def known_tags_def)
  have b: "\<not> typeIs (Str ''hello'' :: int val) ''table''"
    by (simp add: typeIs_def)
  have c: "field (Tbl [(''X'', Number (1 :: int))]) ''_type'' = Undefined"
    by simp
  show ?thesis
    using unknown_tag_passthrough [of "Tbl [(''_type'', Str ''UDim2''), (''X'', Number (1 :: int))]" "[]"]
      unknown_tag_passthrough [of "Str ''hello'' :: int val" "[]"]
      unknown_tag_passthrough [of "Tbl [(''X'', Number (1 :: int))]" "[]"]
      a b c
    by blast
qed

section \<open>Properties of discovery\<close>

lemma serializeProperty_Undefined [simp]:
  "serializeProperty v = Undefined \<longleftrightarrow> v = Undefined"
  by (cases v) simp_all

lemma agrees_visit_member:
  assumes "agrees x K ps"
  shows "agrees x (if passes_catalog m then insert (member_Name m) K else K)
           (visit_member x m ps)"
proof (cases "passes_catalog m")
  case False
  then have "visit_member x m ps = ps"
    by (auto simp: visit_member_def passes_catalog_def)
  with False assms show ?thesis by simp
next
  case True
  then have vm: "visit_member x m ps =
     (case read_attribute x (member_Name m) of
        Inl _ \<Rightarrow> ps
      | Inr v \<Rightarrow> if shouldSerializeProperty (member_Name m) v
                 then map_set (member_Name m) (serializeProperty v) ps else ps)"
    by (simp add: visit_member_def passes_catalog_def)
  show ?thesis
    using assms True unfolding vm agrees_def retained_value_def map_set_def
    by (auto split: sum.splits simp: distinct_update distinct_delete update_conv' delete_conv')
qed

lemma agrees_fold_members:
  "agrees x K ps \<Longrightarrow>
   agrees x (K \<union> member_Name ` {m \<in> set ms. passes_catalog m})
     (fold (visit_member x) ms ps)"
proof (induction ms arbitrary: K ps)
  case Nil
  then show ?case by simp
next
  case (Cons m ms)
  from agrees_visit_member [OF Cons.prems, of m]
  have "agrees x
          ((if passes_catalog m then insert (member_Name m) K else K)
             \<union> member_Name ` {m \<in> set ms. passes_catalog m})
          (fold (visit_member x) ms (visit_member x m ps))"
    by (rule Cons.IH)
  moreover have "(if passes_catalog m then insert (member_Name m) K else K)
             \<union> member_Name ` {m \<in> set ms. passes_catalog m}
       = K \<union> member_Name ` {y \<in> set (m # ms). passes_catalog y}"
    by auto
  ultimately show ?case by simp
qed

lemma agrees_fold_classes:
  "agrees x K ps \<Longrightarrow>
   agrees x (K \<union> listed_names h cs x) (fold (visit_class h x) cs ps)"
proof (induction cs arbitrary: K ps)
  case Nil
  then show ?case by (simp add: listed_names_def)
next
  case (Cons c cs)
  let ?K1 = "if IsA h (obj_ClassName x) (class_Name c)
             then K \<union> member_Name ` {m \<in> set (Members c). passes_catalog m} else K"
  have "agrees x ?K1 (visit_class h x c ps)"
    using Cons.prems agrees_fold_members [OF Cons.prems, of "Members c"]
    by (simp add: visit_class_def)
  then have "agrees x (?K1 \<union> listed_names h cs x)
               (fold (visit_class h x) cs (visit_class h x c ps))"
    by (rule Cons.IH)
  moreover have "?K1 \<union> listed_names h cs x = K \<union> listed_names h (c # cs) x"
    by (auto simp: listed_names_def)
  ultimately show ?case by simp
qed

lemma agrees_discover: "agrees x (listed_names h apiClasses x) (discover h apiClasses x)"
proof -
  have "agrees x {} []" by (simp add: agrees_def)
  from agrees_fold_classes [OF this, of h apiClasses] show ?thesis
    by (simp add: discover_def)
qed

lemma distinct_discover: "distinct (map fst (discover h apiClasses x))"
  using agrees_discover [of x h apiClasses] by (simp add: agrees_def)

lemma map_of_discover:
  "map_of (discover h apiClasses x) k =
     (if k \<in> listed_names h apiClasses x then retained_value x k else None)"
  using agrees_discover [of x h apiClasses] by (simp add: agrees_def)

lemma attribute_of_bag:
  "k \<notin> set IGNORED_PROPERTIES \<Longrightarrow> attribute_of x k = map_of (obj_attributes x) k"
  by (cases x) (auto simp: IGNORED_PROPERTIES_def)

lemma listed_names_not_ignored:
  "k \<in> listed_names h api x \<Longrightarrow> k \<notin> set IGNORED_PROPERTIES"
  by (auto simp: listed_names_def passes_catalog_def)

lemma listed_iff: "listed h api x k \<longleftrightarrow> k \<in> listed_names h api x"
  by (auto simp: listed_def listed_names_def list_ex_iff)

lemma discover_member:
  assumes "(k, e) \<in> set (discover h api x)"
  shows "k \<notin> set IGNORED_PROPERTIES
         \<and> (\<exists>v. map_of (obj_attributes x) k = Some v \<and> v \<noteq> Undefined
                 \<and> shouldSerializeProperty k v \<and> e = serializeProperty v)"
proof -
  from assms distinct_discover [of h api x] have "map_of (discover h api x) k = Some e"
    by simp
  then have k: "k \<in> listed_names h api x" and r: "retained_value x k = Some e"
    by (simp_all add: map_of_discover split: if_splits)
  from k have ni: "k \<notin> set IGNORED_PROPERTIES" by (rule listed_names_not_ignored)
  from r show ?thesis
    unfolding retained_value_def read_attribute_def attribute_of_bag [OF ni]
    using ni by (auto split: option.splits if_splits)
qed

text \<open>
  Apart from the names of the force-include set, a value that discovery stores is a
  value of the wire grammar or an unchanged value of one of the four kinds that the
  inclusion test admits and the encoder has no case for.
\<close>

lemma stored_value_shapes:
  assumes "(k, e) \<in> set (discover h api x)" and "k \<notin> set force_included"
  shows "wire_value e \<or> typeOf e \<in> set [''UDim'', ''UDim2'', ''Rect'', ''BrickColor'']"
proof -
  from discover_member [OF assms(1)] obtain v where
    v: "shouldSerializeProperty k v" "e = serializeProperty v" by blast
  from v(1) assms(2) show ?thesis
    unfolding v(2)
    by (cases v)
       (simp_all add: shouldSerializeProperty_def typeIs_def wire_value_def known_tags_def
          Let_def split: if_splits)
qed

text \<open>
  Claim C5.  The claim is that \<open>Properties\<close> only ever holds primitives and records
  tagged with one of the eight tags.  The code stores a brick color as the host value
  itself: the inclusion test admits the kind and the encoder has no case for it.
\<close>

theorem unencoded_kind_stored_raw:
  "serializeInstance demo_host (Inr brick_catalog) None brick_part
     = (Inr (SerializedInstance ''Part'' ''Block''
               [(''BrickColor'', BrickColor 194),
                (''Size'', Tbl [(''_type'', Str ''Vector3''), (''X'', Number 4),
                                (''Y'', Number 1), (''Z'', Number 2)])] [] Undefined),
        Some brick_catalog)
   \<and> \<not> wire_value (BrickColor 194 :: int val)"
  by code_simp

section \<open>Properties of the tree serializer\<close>

lemma fold_update_fresh:
  "distinct (map fst (acc @ ps)) \<Longrightarrow> fold (\<lambda>(key, v). AList.update key v) ps acc = acc @ ps"
proof (induction ps arbitrary: acc)
  case Nil
  then show ?case by simp
next
  case (Cons p ps)
  obtain k v where p: "p = (k, v)" by (cases p)
  from Cons.prems p have fresh: "k \<notin> fst ` set acc" by auto
  have upd: "AList.update k v acc = acc @ [(k, v)]"
    using fresh by (induction acc) auto
  from Cons.prems p have "distinct (map fst ((acc @ [(k, v)]) @ ps))" by simp
  from Cons.IH [OF this] show ?case by (simp add: p upd)
qed

lemma assign_all_empty: "distinct (map fst ps) \<Longrightarrow> assign_all ps [] = ps"
  using fold_update_fresh [of "[]" ps] by (simp add: assign_all_def)

lemma fold_update_present:
  "distinct (map fst tgt) \<Longrightarrow> set ps \<subseteq> set tgt
     \<Longrightarrow> fold (\<lambda>(key, v). AList.update key v) ps tgt = tgt"
proof (induction ps)
  case Nil
  then show ?case by simp
next
  case (Cons p ps)
  obtain k v where p: "p = (k, v)" by (cases p)
  with Cons.prems have "map_of tgt k = Some v" by simp
  then have "AList.update k v tgt = tgt" by (rule update_triv)
  with Cons p show ?case by simp
qed

lemma assign_all_self: "distinct (map fst ps) \<Longrightarrow> assign_all ps ps = ps"
  by (simp add: assign_all_def fold_update_present)

lemma getInstanceProperties_cached:
  "getInstanceProperties h http c x = (Inr d, c1)
     \<Longrightarrow> getInstanceProperties h http c1 y = (Inr (discover h (the c1) y), c1)"
  by (auto simp: getInstanceProperties_def fetchProperties_def split: option.splits sum.splits)

lemma getInstanceProperties_Inr:
  "getInstanceProperties h http c x = (Inr d, c1) \<Longrightarrow> d = discover h (the c1) x"
  by (auto simp: getInstanceProperties_def fetchProperties_def split: option.splits sum.splits)

lemma fetches_getInstanceProperties:
  "fetches http api c \<Longrightarrow>
   getInstanceProperties h http c x = (Inr (discover h api x), Some api)"
  by (auto simp: fetches_def getInstanceProperties_def fetchProperties_def
           split: option.splits sum.splits)

lemma fetches_Some [simp]: "fetches http api (Some api)"
  by (simp add: fetches_def fetchProperties_def)

lemma children_single_pass:
  "(\<And>x cache. x \<in> set ch \<Longrightarrow> serializeInstance h http cache x = serialize_once h http cache x)
     \<Longrightarrow> serializeChildren h http cache ch = serialize_once_children h http cache ch"
proof (induction ch arbitrary: cache)
  case Nil
  then show ?case by simp
next
  case (Cons x ch)
  have tl: "\<And>c. serializeChildren h http c ch = serialize_once_children h http c ch"
    by (rule Cons.IH) (simp add: Cons.prems)
  have hd: "\<And>c. serializeInstance h http c x = serialize_once h http c x"
    by (rule Cons.prems) simp
  show ?case by (simp add: tl hd split: prod.splits sum.splits)
qed

lemma instance_single_pass:
  "serializeInstance h http cache x = serialize_once h http cache x"
proof (induction x arbitrary: cache)
  case (Instance className name attrs archivable children)
  let ?x = "Instance className name attrs archivable children"
  have kids: "\<And>c. serializeChildren h http c children = serialize_once_children h http c children"
    by (rule children_single_pass) (rule Instance.IH)
  show ?case
  proof (cases "read_MeshId h ?x")
    case (Inl e)
    then show ?thesis by simp
  next
    case meshId: (Inr meshId)
    obtain r c1 where g: "getInstanceProperties h http cache ?x = (r, c1)"
      by (cases "getInstanceProperties h http cache ?x")
    show ?thesis
    proof (cases r)
      case (Inl e)
      with g meshId show ?thesis
        by (simp add: attachment_pass_def)
    next
      case (Inr d)
      with g have g': "getInstanceProperties h http cache ?x = (Inr d, c1)" by simp
      have again: "getInstanceProperties h http c1 ?x = (Inr d, c1)"
        using getInstanceProperties_cached [OF g', of ?x] getInstanceProperties_Inr [OF g']
        by simp
      have dist: "distinct (map fst d)"
        unfolding getInstanceProperties_Inr [OF g'] by (rule distinct_discover)
      show ?thesis
        using meshId g' again dist kids
        by (simp add: attachment_pass_def assign_all_empty assign_all_self
                 split: prod.splits sum.splits)
    qed
  qed
qed

lemma attachment_pass_repeats:
  assumes "IsA h (obj_ClassName x) ''Attachment''"
    and "attachment_pass h http cache x = (Inr props1, c1)"
  shows "getInstanceProperties h http c1 x = (Inr props1, c1) \<and> assign_all props1 props1 = props1"
proof -
  from assms obtain d where
    g: "getInstanceProperties h http cache x = (Inr d, c1)" and p: "props1 = assign_all d []"
    by (auto simp: attachment_pass_def split: prod.splits sum.splits)
  have dist: "distinct (map fst d)"
    unfolding getInstanceProperties_Inr [OF g] by (rule distinct_discover)
  have "getInstanceProperties h http c1 x = (Inr d, c1)"
    using getInstanceProperties_cached [OF g, of x] getInstanceProperties_Inr [OF g] by simp
  with p dist show ?thesis by (simp add: assign_all_empty assign_all_self)
qed

lemma serialize_Properties:
  assumes "fetches http api cache" and "serializeInstance h http cache x = (Inr node, c')"
  shows "Properties node = discover h api x"
proof (cases x)
  case (Instance className name attrs archivable children)
  with assms show ?thesis
    unfolding instance_single_pass
    by (auto simp: fetches_getInstanceProperties split: sum.splits prod.splits)
qed

text \<open>
  Claim C4, as amended.  The force-include set overrides the test on the kind of the
  value and nothing else.  When some class the object belongs to lists the name with
  a member that passes the catalog gates (a Property, outside the exclusion set,
  without the Deprecated, Hidden, NotScriptable or ReadOnly tag), the name is in the
  force-include set, and the attribute is readable with a value other than
  \<open>undefined\<close>, then the \<open>Properties\<close> of the serialized node hold the encoded
  value under that name, whatever the kind of the value.  When no class the object
  belongs to lists the name with a member that passes the gates, \<open>Properties\<close>
  has no entry under that name, force-included or not: the force-include set does not
  override the member-kind and tag gates.
\<close>

theorem force_include_after_catalog_gates:
  assumes "fetches http apiClasses cache"
    and "serializeInstance h http cache x = (Inr node, c')"
  shows "(name \<in> set force_included \<and> listed h apiClasses x name
            \<and> read_attribute x name = Inr v \<and> v \<noteq> Undefined
          \<longrightarrow> map_of (Properties node) name = Some (serializeProperty v))
       \<and> (\<not> listed h apiClasses x name \<longrightarrow> map_of (Properties node) name = None)"
  by (simp add: serialize_Properties [OF assms] map_of_discover listed_iff retained_value_def
        shouldSerializeProperty_def)

theorem force_include_after_catalog_gates_witness:
  "fetches (Inr [size_class]) [size_class] None
   \<and> serializeInstance demo_host (Inr [size_class]) None opaque_part
       = (Inr (SerializedInstance ''Part'' ''Block'' [(''Size'', Userdata 7)] [] Undefined),
          Some [size_class])
   \<and> ''Size'' \<in> set force_included
   \<and> listed demo_host [size_class] opaque_part ''Size''
   \<and> read_attribute opaque_part ''Size'' = Inr (Userdata 7)
   \<and> \<not> serializable_kind (Userdata 7 :: int val)
   \<and> map_of (Properties (SerializedInstance ''Part'' ''Block'' [(''Size'', Userdata 7)] []
                           (Undefined :: int val))) ''Size''
       = Some (Userdata 7)
   \<and> fetches (Inr deprecated_size_catalog) deprecated_size_catalog None
   \<and> serializeInstance demo_host (Inr deprecated_size_catalog) None sized_part
       = (Inr (SerializedInstance ''Part'' ''Block'' [] [] Undefined),
          Some deprecated_size_catalog)
   \<and> \<not> listed demo_host deprecated_size_catalog sized_part ''Size''
   \<and> map_of (Properties (SerializedInstance ''Part'' ''Block'' [] [] (Undefined :: int val)))
        ''Size'' = None"
proof -
  have p: "fetches (Inr [size_class]) [size_class] None" by code_simp
  have q: "serializeInstance demo_host (Inr [size_class]) None opaque_part
       = (Inr (SerializedInstance ''Part'' ''Block'' [(''Size'', Userdata 7)] [] Undefined),
          Some [size_class])"
    by code_simp
  have a: "''Size'' \<in> set force_included" by code_simp
  have b: "listed demo_host [size_class] opaque_part ''Size''" by code_simp
  have c: "read_attribute opaque_part ''Size'' = Inr (Userdata 7)" by code_simp
  have d: "(Userdata 7 :: int val) \<noteq> Undefined" by simp
  have e: "\<not> serializable_kind (Userdata 7 :: int val)" by code_simp
  have p': "fetches (Inr deprecated_size_catalog) deprecated_size_catalog None" by code_simp
  have q': "serializeInstance demo_host (Inr deprecated_size_catalog) None sized_part
       = (Inr (SerializedInstance ''Part'' ''Block'' [] [] Undefined),
          Some deprecated_size_catalog)"
    by code_simp
  have f: "\<not> listed demo_host deprecated_size_catalog sized_part ''Size''" by code_simp
  from force_include_after_catalog_gates [OF p q, of "''Size''" "Userdata 7"]
    force_include_after_catalog_gates [OF p' q', of "''Size''" "Userdata 7"]
    p q a b c d e p' q' f
  show ?thesis by simp
qed

text \<open>
  The claim as first stated fails: a readable \<open>Size\<close>, a name of the force-include
  set, is left out when the catalog marks the member deprecated, because the tags are
  tested before the inclusion test is reached.
\<close>

theorem force_include_does_not_override_tags:
  "read_attribute sized_part ''Size'' = Inr (Vector3 4 1 2)
   \<and> ''Size'' \<in> set force_included
   \<and> serializeInstance demo_host (Inr deprecated_size_catalog) None sized_part
       = (Inr (SerializedInstance ''Part'' ''Block'' [] [] Undefined),
          Some deprecated_size_catalog)"
  by code_simp

text \<open>
  Claim C10.  The node the serializer produces is the node of a serializer that runs
  discovery and encoding once per node.  For an object of the attachment kind, the
  general pass that follows the attachment pass discovers the same key/value pairs,
  and writing them over the first ones leaves \<open>Properties\<close> as it was.
\<close>

theorem attachment_pass_redundant:
  "serializeInstance h http cache x = serialize_once h http cache x
   \<and> (IsA h (obj_ClassName x) ''Attachment'' \<and> attachment_pass h http cache x = (Inr props1, c1)
        \<longrightarrow> getInstanceProperties h http c1 x = (Inr props1, c1)
            \<and> assign_all props1 props1 = props1)"
  using instance_single_pass [of h http cache x] attachment_pass_repeats [of h x http cache props1 c1]
  by blast

theorem attachment_pass_redundant_witness:
  "IsA demo_host (obj_ClassName demo_attachment) ''Attachment''
   \<and> attachment_pass demo_host (Inr demo_catalog) None demo_attachment
       = (Inr (Properties demo_attachment_node), Some demo_catalog)
   \<and> serialize_once demo_host (Inr demo_catalog) None demo_attachment
       = (Inr demo_attachment_node, Some demo_catalog)
   \<and> serializeInstance demo_host (Inr demo_catalog) None demo_attachment
       = (Inr demo_attachment_node, Some demo_catalog)
   \<and> getInstanceProperties demo_host (Inr demo_catalog) (Some demo_catalog) demo_attachment
       = (Inr (Properties demo_attachment_node), Some demo_catalog)"
proof -
  have a: "IsA demo_host (obj_ClassName demo_attachment) ''Attachment''" by code_simp
  have b: "attachment_pass demo_host (Inr demo_catalog) None demo_attachment
             = (Inr (Properties demo_attachment_node), Some demo_catalog)"
    by code_simp
  have c: "serialize_once demo_host (Inr demo_catalog) None demo_attachment
             = (Inr demo_attachment_node, Some demo_catalog)"
    by code_simp
  from attachment_pass_redundant [of demo_host "Inr demo_catalog" None demo_attachment
         "Properties demo_attachment_node" "Some demo_catalog"] a b c
  show ?thesis by simp
qed

lemma prune_fields [simp]:
  "obj_ClassName (prune x) = obj_ClassName x"
  "obj_attributes (prune x) = obj_attributes x"
  "Archivable (prune x) = Archivable x"
  "attribute_of (prune x) = attribute_of x"
  by (cases x; simp add: fun_eq_iff)+

lemma discover_cong:
  assumes c: "obj_ClassName a = obj_ClassName b" and at: "attribute_of a = attribute_of b"
  shows "discover h api a = discover h api b"
proof -
  have "visit_member a = visit_member b"
    by (intro ext) (simp add: visit_member_def read_attribute_def at)
  then have "visit_class h a = visit_class h b"
    by (intro ext) (simp add: visit_class_def c)
  then show ?thesis by (simp add: discover_def)
qed

lemma discover_prune: "discover h api (prune x) = discover h api x"
  by (rule discover_cong) simp_all

lemma prune_passes [simp]:
  "read_MeshId h (prune x) = read_MeshId h x"
  "getInstanceProperties h http c (prune x) = getInstanceProperties h http c x"
  "attachment_pass h http c (prune x) = attachment_pass h http c x"
  unfolding read_MeshId_def read_attribute_def getInstanceProperties_def
    attachment_pass_def discover_prune prune_fields
  by (rule refl)+

lemma children_pruned:
  "(\<And>x cache. x \<in> set ch \<Longrightarrow>
       serializeInstance h http cache (prune x) = serializeInstance h http cache x)
     \<Longrightarrow> serializeChildren h http cache (map prune (filter Archivable ch))
           = serializeChildren h http cache ch"
proof (induction ch arbitrary: cache)
  case Nil
  then show ?case by simp
next
  case (Cons x ch)
  have tl: "\<And>c. serializeChildren h http c (map prune (filter Archivable ch))
                   = serializeChildren h http c ch"
    by (rule Cons.IH) (simp add: Cons.prems)
  have hd: "\<And>c. serializeInstance h http c (prune x) = serializeInstance h http c x"
    by (rule Cons.prems) simp
  show ?case by (simp add: tl hd split: prod.splits sum.splits)
qed

lemma serialize_prune:
  "serializeInstance h http cache (prune x) = serializeInstance h http cache x"
proof (induction x arbitrary: cache)
  case (Instance className name attrs archivable children)
  have kids: "\<And>c. serializeChildren h http c (map prune (filter Archivable children))
                     = serializeChildren h http c children"
    by (rule children_pruned) (rule Instance.IH)
  have p: "prune (Instance className name attrs archivable children)
           = Instance className name attrs archivable (map prune (filter Archivable children))"
    by simp
  have q: "\<And>f. f (Instance className name attrs archivable (map prune (filter Archivable children)))
            = f (prune (Instance className name attrs archivable children))"
    by simp
  show ?case
    unfolding p serializeInstance.simps kids
    unfolding q prune_passes ..
qed

lemma children_outline:
  "(\<And>x cache node c'. x \<in> set ch \<Longrightarrow> serializeInstance h http cache x = (Inr node, c')
       \<Longrightarrow> node_outline node = instance_outline (prune x))
     \<Longrightarrow> serializeChildren h http cache ch = (Inr nodes, c')
     \<Longrightarrow> map node_outline nodes = map (instance_outline \<circ> prune) (filter Archivable ch)"
proof (induction ch arbitrary: cache nodes c')
  case Nil
  then show ?case by simp
next
  case (Cons x ch)
  show ?case
  proof (cases "Archivable x")
    case False
    with Cons.prems(2) have "serializeChildren h http cache ch = (Inr nodes, c')" by simp
    with Cons.IH [OF Cons.prems(1)] False show ?thesis by simp
  next
    case True
    with Cons.prems(2) obtain s c1 ss where
      s: "serializeInstance h http cache x = (Inr s, c1)" and
      ss: "serializeChildren h http c1 ch = (Inr ss, c')" and
      nodes: "nodes = s # ss"
      by (auto split: prod.splits sum.splits)
    from Cons.prems(1) [OF _ s] have "node_outline s = instance_outline (prune x)" by simp
    moreover from Cons.IH [OF Cons.prems(1) ss]
    have "map node_outline ss = map (instance_outline \<circ> prune) (filter Archivable ch)" by simp
    ultimately show ?thesis using True nodes by simp
  qed
qed

lemma serialize_outline:
  "serializeInstance h http cache x = (Inr node, c')
     \<Longrightarrow> node_outline node = instance_outline (prune x)"
proof (induction x arbitrary: cache node c')
  case (Instance className name attrs archivable children)
  from Instance.prems obtain c2 kids props meshId where
    kids: "serializeChildren h http c2 children = (Inr kids, c')" and
    node: "node = SerializedInstance className name props kids meshId"
    by (auto split: prod.splits sum.splits)
  have "map node_outline kids = map (instance_outline \<circ> prune) (filter Archivable children)"
    by (rule children_outline [OF _ kids]) (rule Instance.IH)
  with node show ?case by simp
qed

text \<open>
  Claim C7.  A descendant whose archivable flag is false is absent from the output
  together with its whole subtree, at any depth: serializing an object gives what
  serializing its pruned tree gives, and the nodes of the output are, by class name
  and name, the objects of the pruned tree, children in the host's order.
\<close>

theorem non_archivable_pruned:
  "serializeInstance h http cache (prune x) = serializeInstance h http cache x
   \<and> (serializeInstance h http cache x = (Inr node, c')
        \<longrightarrow> node_outline node = instance_outline (prune x))"
  using serialize_prune [of h http cache x] serialize_outline [of h http cache x node c']
  by blast

theorem non_archivable_pruned_witness:
  "serializeInstance demo_host (Inr demo_catalog) None archive_tree
     = (Inr archive_node, Some demo_catalog)
   \<and> serializeInstance demo_host (Inr demo_catalog) None (prune archive_tree)
     = (Inr archive_node, Some demo_catalog)
   \<and> node_outline archive_node
     = Outline ''Folder'' ''Root''
         [Outline ''Folder'' ''Kept'' [Outline ''Folder'' ''Leaf'' []],
          Outline ''Folder'' ''Last'' []]
   \<and> instance_outline (prune archive_tree) = node_outline archive_node"
proof -
  have a: "serializeInstance demo_host (Inr demo_catalog) None archive_tree
             = (Inr archive_node, Some demo_catalog)"
    by code_simp
  have b: "node_outline archive_node
     = Outline ''Folder'' ''Root''
         [Outline ''Folder'' ''Kept'' [Outline ''Folder'' ''Leaf'' []],
          Outline ''Folder'' ''Last'' []]"
    by code_simp
  from non_archivable_pruned [of demo_host "Inr demo_catalog" None archive_tree
         archive_node "Some demo_catalog"] a b
  show ?thesis by simp
qed

section \<open>Properties of the tree deserializer\<close>

lemma set_property_eq:
  "set_property h x k v =
     (case decoded_write h (obj_ClassName x) k v of
        Inl e \<Rightarrow> Inl e
      | Inr d \<Rightarrow> Inr (stored k d x))"
proof (cases x)
  case (Instance c n attrs a ch)
  show ?thesis
  proof (cases "deserializeProperty (Enum h) v")
    case (Inl e)
    then show ?thesis by (simp add: set_property_def decoded_write_def)
  next
    case (Inr d)
    then show ?thesis
      unfolding Instance
      by (cases d)
         (simp_all add: set_property_def decoded_write_def write_attribute_def writable_def
            typeIs_def)
  qed
qed

lemma stored_fields [simp]:
  "obj_ClassName (stored k d x) = obj_ClassName x"
  "GetChildren (stored k d x) = GetChildren x"
  by (cases x; simp)+

lemma stored_other_attribute:
  "k' \<noteq> k \<Longrightarrow> attribute_of (stored k' d x) k = attribute_of x k"
  by (cases x) (auto simp: update_conv')

lemma stored_other_bag:
  "k' \<noteq> k \<Longrightarrow> map_of (obj_attributes (stored k' d x)) k = map_of (obj_attributes x) k"
  by (cases x) (auto simp: update_conv')

lemma stored_other_name: "k' \<noteq> ''Name'' \<Longrightarrow> obj_Name (stored k' d x) = obj_Name x"
  by (cases x) auto

lemma stored_same:
  "writable h c k d \<Longrightarrow> k \<noteq> ''Parent'' \<Longrightarrow> attribute_of (stored k d x) k = Some d"
  by (cases x; cases d) (auto simp: writable_def typeIs_def update_conv' split: if_splits)

lemma decoded_write_writable:
  "decoded_write h c k v = Inr d \<Longrightarrow> writable h c k d"
  by (auto simp: decoded_write_def split: sum.splits if_splits)

lemma set_properties_loop:
  "set_properties h props (x, log @ map (\<lambda>(k, n, e). PropertyFailed k n e) fl) =
     (case write_loop h (skipped h (obj_ClassName x)) props (x, fl) of
        (x', fl') \<Rightarrow> (x', log @ map (\<lambda>(k, n, e). PropertyFailed k n e) fl'))"
proof (induction props arbitrary: x fl)
  case Nil
  then show ?case by simp
next
  case (Cons p props)
  obtain k v where p: "p = (k, v)" by (cases p)
  have cond: "(IsA h (obj_ClassName x) ''MeshPart'' \<and> k = ''MeshId'')
              = skipped h (obj_ClassName x) k"
    by (simp add: skipped_def)
  show ?case
  proof (cases "skipped h (obj_ClassName x) k")
    case True
    with Cons.IH [where x = x and fl = fl] show ?thesis by (simp add: p cond)
  next
    case False
    show ?thesis
    proof (cases "decoded_write h (obj_ClassName x) k v")
      case (Inl e)
      with False Cons.IH [where x = x and fl = "fl @ [(k, obj_Name x, e)]"] show ?thesis
        by (simp add: p cond set_property_eq)
    next
      case (Inr d)
      with False Cons.IH [where x = "stored k d x" and fl = fl] show ?thesis
        by (simp add: p cond set_property_eq)
    qed
  qed
qed

lemma set_attachment_properties_loop:
  "set_attachment_properties h props
     (x, log @ map (\<lambda>(k, n, e). AttachmentPropertyFailed k n e) fl) =
     (case write_loop h (\<lambda>_. False) props (x, fl) of
        (x', fl') \<Rightarrow> (x', log @ map (\<lambda>(k, n, e). AttachmentPropertyFailed k n e) fl'))"
proof (induction props arbitrary: x fl)
  case Nil
  then show ?case by simp
next
  case (Cons p props)
  obtain k v where p: "p = (k, v)" by (cases p)
  show ?case
  proof (cases "decoded_write h (obj_ClassName x) k v")
    case (Inl e)
    with Cons.IH [where x = x and fl = "fl @ [(k, obj_Name x, e)]"] show ?thesis
      by (simp add: p set_property_eq)
  next
    case (Inr d)
    with Cons.IH [where x = "stored k d x" and fl = fl] show ?thesis
      by (simp add: p set_property_eq)
  qed
qed

lemma write_loop_fields [simp]:
  "obj_ClassName (fst (write_loop h skip props (x, fl))) = obj_ClassName x"
  "GetChildren (fst (write_loop h skip props (x, fl))) = GetChildren x"
  by (induction props arbitrary: x fl; auto split: sum.splits)+

lemma write_loop_log_mono: "set fl \<subseteq> set (snd (write_loop h skip props (x, fl)))"
proof (induction props arbitrary: x fl)
  case Nil
  then show ?case by simp
next
  case (Cons p props)
  obtain k v where p: "p = (k, v)" by (cases p)
  show ?case
  proof (cases "decoded_write h (obj_ClassName x) k v")
    case (Inl e)
    with Cons.IH [where x = x and fl = fl]
      Cons.IH [where x = x and fl = "fl @ [(k, obj_Name x, e)]"] show ?thesis
      by (auto simp: p)
  next
    case (Inr d)
    with Cons.IH [where x = x and fl = fl] Cons.IH [where x = "stored k d x" and fl = fl]
    show ?thesis
      by (auto simp: p)
  qed
qed

lemma write_loop_preserves:
  assumes other: "\<And>k' d y. k' \<noteq> k \<Longrightarrow> P (stored k' d y) = P y"
  shows "skip k \<or> k \<notin> fst ` set props \<Longrightarrow> P (fst (write_loop h skip props (x, fl))) = P x"
proof (induction props arbitrary: x fl)
  case Nil
  then show ?case by simp
next
  case (Cons p props)
  obtain k' v where p: "p = (k', v)" by (cases p)
  from Cons.prems p have not: "skip k' \<or> k' \<noteq> k" by auto
  from Cons.prems p have rest: "skip k \<or> k \<notin> fst ` set props" by auto
  show ?case
    using not
    by (auto simp: p Cons.IH [OF rest] other split: sum.splits)
qed

lemma write_loop_untouched:
  "skip k \<or> k \<notin> fst ` set props
     \<Longrightarrow> attribute_of (fst (write_loop h skip props (x, fl))) k = attribute_of x k"
  by (rule write_loop_preserves [where P = "\<lambda>y. attribute_of y k"])
     (simp_all add: stored_other_attribute)

lemma write_loop_bag_untouched:
  "skip k \<or> k \<notin> fst ` set props
     \<Longrightarrow> map_of (obj_attributes (fst (write_loop h skip props (x, fl)))) k
         = map_of (obj_attributes x) k"
  by (rule write_loop_preserves [where P = "\<lambda>y. map_of (obj_attributes y) k"])
     (simp_all add: stored_other_bag)

lemma write_loop_name:
  "''Name'' \<notin> fst ` set props \<Longrightarrow> obj_Name (fst (write_loop h skip props (x, fl))) = obj_Name x"
  by (rule write_loop_preserves [where P = obj_Name and k = "''Name''"])
     (simp_all add: stored_other_name)

lemma write_loop_success:
  "distinct (map fst props) \<Longrightarrow> (k, v) \<in> set props \<Longrightarrow> \<not> skip k
     \<Longrightarrow> decoded_write h (obj_ClassName x) k v = Inr d \<Longrightarrow> k \<noteq> ''Parent''
     \<Longrightarrow> attribute_of (fst (write_loop h skip props (x, fl))) k = Some d"
proof (induction props arbitrary: x fl)
  case Nil
  then show ?case by simp
next
  case (Cons p props)
  obtain k' v' where p: "p = (k', v')" by (cases p)
  show ?case
  proof (cases "k' = k")
    case True
    with Cons.prems p have v: "v' = v" and fresh: "k \<notin> fst ` set props"
      by (auto simp: image_iff)
    from Cons.prems(4) have w: "writable h (obj_ClassName x) k d"
      by (rule decoded_write_writable)
    show ?thesis
      using Cons.prems(3,4) True
      by (simp add: p v write_loop_untouched [OF disjI2 [OF fresh]]
            stored_same [OF w Cons.prems(5)])
  next
    case False
    with Cons.prems p have mem: "(k, v) \<in> set props" and d: "distinct (map fst props)" by auto
    have IH: "attribute_of (fst (write_loop h skip props (y, fl'))) k = Some d"
      if "obj_ClassName y = obj_ClassName x" for y fl'
      using Cons.IH [OF d mem Cons.prems(3) _ Cons.prems(5), where x = y and fl = fl']
        Cons.prems(4) that
      by simp
    show ?thesis
      by (simp add: p IH split: sum.splits)
  qed
qed

lemma write_loop_failure:
  "distinct (map fst props) \<Longrightarrow> (k, v) \<in> set props \<Longrightarrow> \<not> skip k
     \<Longrightarrow> decoded_write h (obj_ClassName x) k v = Inl e
     \<Longrightarrow> attribute_of (fst (write_loop h skip props (x, fl))) k = attribute_of x k
         \<and> (\<exists>nm. (k, nm, e) \<in> set (snd (write_loop h skip props (x, fl))))"
proof (induction props arbitrary: x fl)
  case Nil
  then show ?case by simp
next
  case (Cons p props)
  obtain k' v' where p: "p = (k', v')" by (cases p)
  show ?case
  proof (cases "k' = k")
    case True
    with Cons.prems p have v: "v' = v" and fresh: "k \<notin> fst ` set props"
      by (auto simp: image_iff)
    have "(k, obj_Name x, e) \<in> set (snd (write_loop h skip props (x, fl @ [(k, obj_Name x, e)])))"
      using write_loop_log_mono [where fl = "fl @ [(k, obj_Name x, e)]" and x = x] by auto
    then show ?thesis
      using Cons.prems(3,4) True
      by (auto simp: p v write_loop_untouched [OF disjI2 [OF fresh]])
  next
    case False
    with Cons.prems p have mem: "(k, v) \<in> set props" and d: "distinct (map fst props)" by auto
    have IH: "attribute_of (fst (write_loop h skip props (y, fl'))) k = attribute_of y k
              \<and> (\<exists>nm. (k, nm, e) \<in> set (snd (write_loop h skip props (y, fl'))))"
      if "obj_ClassName y = obj_ClassName x" for y fl'
      using Cons.IH [OF d mem Cons.prems(3), where x = y and fl = fl'] Cons.prems(4) that
      by simp
    show ?thesis
      using False
      by (simp add: p IH stored_other_attribute split: sum.splits)
  qed
qed

lemma write_loop_failure_named:
  "''Name'' \<notin> fst ` set props \<Longrightarrow> (k, v) \<in> set props \<Longrightarrow> \<not> skip k
     \<Longrightarrow> decoded_write h (obj_ClassName x) k v = Inl e
     \<Longrightarrow> (k, obj_Name x, e) \<in> set (snd (write_loop h skip props (x, fl)))"
proof (induction props arbitrary: x fl)
  case Nil
  then show ?case by simp
next
  case (Cons p props)
  obtain k' v' where p: "p = (k', v')" by (cases p)
  from Cons.prems(1) p have k': "k' \<noteq> ''Name''" and rest: "''Name'' \<notin> fst ` set props"
    by auto
  show ?case
  proof (cases "(k', v') = (k, v)")
    case True
    have "(k, obj_Name x, e) \<in> set (snd (write_loop h skip props (x, fl @ [(k, obj_Name x, e)])))"
      using write_loop_log_mono [where fl = "fl @ [(k, obj_Name x, e)]" and x = x] by auto
    with True Cons.prems(3,4) show ?thesis by (simp add: p)
  next
    case False
    with Cons.prems p have mem: "(k, v) \<in> set props" by auto
    have IH: "(k, obj_Name x, e) \<in> set (snd (write_loop h skip props (y, fl')))"
      if "obj_ClassName y = obj_ClassName x" "obj_Name y = obj_Name x" for y fl'
      using Cons.IH [OF rest mem Cons.prems(3), where x = y and fl = fl'] Cons.prems(4) that
      by simp
    show ?thesis
      by (simp add: p IH stored_other_name [OF k'] split: sum.splits)
  qed
qed

lemma construct_fresh:
  "construct h c n [] m = Inr (fresh, w)
     \<Longrightarrow> \<exists>a0. fresh = Instance c n a0 True []"
  by (auto simp: construct_def Instance_new_def import_mesh_def
           split: if_splits sum.splits option.splits)

lemma construct_props:
  "construct h c n [] m = Inr (fresh, w) \<Longrightarrow>
   construct h c n props m =
     Inr (if c = ''Attachment'' then set_attachment_properties h props (fresh, w)
          else (fresh, w))"
  by (auto simp: construct_def Instance_new_def import_mesh_def
           split: if_splits sum.splits option.splits)

lemma add_children_fields [simp]:
  "obj_ClassName (add_children x kids) = obj_ClassName x"
  "obj_Name (add_children x kids) = obj_Name x"
  "obj_attributes (add_children x kids) = obj_attributes x"
  "attribute_of (add_children x kids) = attribute_of x"
  "GetChildren (add_children x kids) = GetChildren x @ kids"
  by (cases x; simp add: fun_eq_iff)+

lemma deserializeInstance_built:
  assumes "construct h c n [] m = Inr (fresh, w0)"
    and "deserializeChildren h ch = Inr (kids, wk)"
  shows "\<exists>log. deserializeInstance h (SerializedInstance c n props ch m) =
           Inr (add_children (final_object h props fresh) kids, log)
         \<and> set (map (\<lambda>(k, nm, e). PropertyFailed k nm e) (final_failures h props fresh))
               \<subseteq> set log
         \<and> set w0 \<subseteq> set log"
proof -
  from construct_fresh [OF assms(1)] have c: "obj_ClassName fresh = c" by auto
  show ?thesis
  proof (cases "c = ''Attachment''")
    case True
    obtain x1 f1 where l1: "write_loop h (\<lambda>_. False) props (fresh, []) = (x1, f1)"
      by (cases "write_loop h (\<lambda>_. False) props (fresh, [])")
    have c1: "obj_ClassName x1 = c"
      using write_loop_fields(1) [of h "\<lambda>_. False" props fresh "[]"] l1 c by simp
    obtain x2 f2 where l2: "write_loop h (skipped h c) props (x1, []) = (x2, f2)"
      by (cases "write_loop h (skipped h c) props (x1, [])")
    have a: "set_attachment_properties h props (fresh, w0)
               = (x1, w0 @ map (\<lambda>(k, n, e). AttachmentPropertyFailed k n e) f1)"
      using set_attachment_properties_loop [of h props fresh w0 "[]"] l1 by simp
    have b: "set_properties h props (x1, w0 @ map (\<lambda>(k, n, e). AttachmentPropertyFailed k n e) f1)
               = (x2, (w0 @ map (\<lambda>(k, n, e). AttachmentPropertyFailed k n e) f1)
                        @ map (\<lambda>(k, n, e). PropertyFailed k n e) f2)"
      using set_properties_loop
              [of h props x1 "w0 @ map (\<lambda>(k, n, e). AttachmentPropertyFailed k n e) f1" "[]"]
            l2 c1
      by simp
    have fo: "final_object h props fresh = x2" "final_failures h props fresh = f2"
      using True c l1 l2 by (simp_all add: final_object_def final_failures_def general_loop_def)
    show ?thesis
      using assms True a b
      by (force simp: construct_props fo)
  next
    case False
    obtain x2 f2 where l2: "write_loop h (skipped h c) props (fresh, []) = (x2, f2)"
      by (cases "write_loop h (skipped h c) props (fresh, [])")
    have b: "set_properties h props (fresh, w0)
               = (x2, w0 @ map (\<lambda>(k, n, e). PropertyFailed k n e) f2)"
      using set_properties_loop [of h props fresh w0 "[]"] l2 c by simp
    have fo: "final_object h props fresh = x2" "final_failures h props fresh = f2"
      using False c l2 by (simp_all add: final_object_def final_failures_def general_loop_def)
    show ?thesis
      using assms False b
      by (force simp: construct_props fo)
  qed
qed

lemma children_constructible:
  "(\<And>d. d \<in> set ch \<Longrightarrow> constructible h d \<Longrightarrow> \<exists>i l. deserializeInstance h d = Inr (i, l))
     \<Longrightarrow> list_all (constructible h) ch
     \<Longrightarrow> \<exists>kids log. deserializeChildren h ch = Inr (kids, log)
           \<and> list_all2 (\<lambda>d k. \<exists>l. deserializeInstance h d = Inr (k, l)) ch kids"
proof (induction ch)
  case Nil
  then show ?case by simp
next
  case (Cons d ch)
  from Cons.prems obtain i l where i: "deserializeInstance h d = Inr (i, l)" by fastforce
  from Cons.prems have "list_all (constructible h) ch" by simp
  with Cons.IH Cons.prems(1) obtain kids log where
    "deserializeChildren h ch = Inr (kids, log)"
    "list_all2 (\<lambda>d k. \<exists>l. deserializeInstance h d = Inr (k, l)) ch kids"
    by fastforce
  with i show ?case by auto
qed

lemma constructible_deserializes:
  "constructible h data \<Longrightarrow> \<exists>i l. deserializeInstance h data = Inr (i, l)"
proof (induction data)
  case (SerializedInstance c n props ch m)
  from SerializedInstance.prems obtain fresh w0 where
    f: "construct h c n [] m = Inr (fresh, w0)"
    by (auto split: sum.splits)
  from SerializedInstance.prems have "list_all (constructible h) ch" by simp
  with children_constructible [of ch h] SerializedInstance.IH
  obtain kids wk where "deserializeChildren h ch = Inr (kids, wk)" by blast
  from deserializeInstance_built [OF f this] show ?case by blast
qed

lemma deserialize_constructible:
  assumes "constructible h (SerializedInstance c n props ch m)"
  shows "\<exists>a0 w0 kids log.
           construct h c n [] m = Inr (Instance c n a0 True [], w0)
         \<and> deserializeInstance h (SerializedInstance c n props ch m) =
             Inr (add_children (final_object h props (Instance c n a0 True [])) kids, log)
         \<and> set (map (\<lambda>(k, nm, e). PropertyFailed k nm e)
                     (final_failures h props (Instance c n a0 True []))) \<subseteq> set log
         \<and> set w0 \<subseteq> set log
         \<and> list_all2 (\<lambda>d k. \<exists>l. deserializeInstance h d = Inr (k, l)) ch kids"
proof -
  from assms obtain fresh w0 where
    "construct h c n [] m = Inr (fresh, w0)"
    by (auto split: sum.splits)
  with construct_fresh [OF this] obtain a0 where
    f: "construct h c n [] m = Inr (Instance c n a0 True [], w0)" by auto
  from assms have "list_all (constructible h) ch" by simp
  with children_constructible [of ch h] constructible_deserializes
  obtain kids wk where k: "deserializeChildren h ch = Inr (kids, wk)"
    and k2: "list_all2 (\<lambda>d k. \<exists>l. deserializeInstance h d = Inr (k, l)) ch kids" by blast
  from deserializeInstance_built [OF f k, of props] f k2 show ?thesis by blast
qed

lemma final_object_fields [simp]:
  "obj_ClassName (final_object h props fresh) = obj_ClassName fresh"
  "GetChildren (final_object h props fresh) = GetChildren fresh"
  by (simp_all add: final_object_def general_loop_def)

lemma final_object_success:
  assumes "distinct (map fst props)" "(k, v) \<in> set props"
    and "\<not> skipped h (obj_ClassName fresh) k"
    and "decoded_write h (obj_ClassName fresh) k v = Inr d" and "k \<noteq> ''Parent''"
  shows "attribute_of (final_object h props fresh) k = Some d"
  unfolding final_object_def general_loop_def
  by (rule write_loop_success
            [where skip = "skipped h (obj_ClassName fresh)", OF assms(1,2,3) _ assms(5)])
     (use assms(4) in auto)

lemma final_object_failure:
  assumes "distinct (map fst props)" "(k, v) \<in> set props"
    and "\<not> skipped h (obj_ClassName fresh) k"
    and "decoded_write h (obj_ClassName fresh) k v = Inl e"
  shows "attribute_of (final_object h props fresh) k = attribute_of fresh k
         \<and> (\<exists>nm. (k, nm, e) \<in> set (final_failures h props fresh))"
proof -
  let ?start = "if obj_ClassName fresh = ''Attachment''
                then fst (write_loop h (\<lambda>_. False) props (fresh, [])) else fresh"
  have c: "obj_ClassName ?start = obj_ClassName fresh" by simp
  have first: "attribute_of ?start k = attribute_of fresh k"
    using write_loop_failure
            [where skip = "\<lambda>_. False" and x = fresh and fl = "[]" and h = h and e = e,
             OF assms(1,2)]
          assms(4)
    by simp
  from write_loop_failure
         [where skip = "skipped h (obj_ClassName fresh)" and x = ?start and fl = "[]"
            and h = h and e = e, OF assms(1,2,3)]
       assms(4) c first
  show ?thesis
    by (simp add: final_object_def final_failures_def general_loop_def)
qed

lemma final_object_failure_named:
  assumes "''Name'' \<notin> fst ` set props" "(k, v) \<in> set props"
    and "\<not> skipped h (obj_ClassName fresh) k"
    and "decoded_write h (obj_ClassName fresh) k v = Inl e"
  shows "(k, obj_Name fresh, e) \<in> set (final_failures h props fresh)"
proof -
  let ?start = "if obj_ClassName fresh = ''Attachment''
                then fst (write_loop h (\<lambda>_. False) props (fresh, [])) else fresh"
  have c: "obj_ClassName ?start = obj_ClassName fresh" by simp
  have n: "obj_Name ?start = obj_Name fresh"
    using assms(1) by (simp add: write_loop_name)
  from write_loop_failure_named
         [where skip = "skipped h (obj_ClassName fresh)" and x = ?start and fl = "[]"
            and h = h and e = e, OF assms(1,2,3)]
       assms(4) c n
  show ?thesis
    by (simp add: final_failures_def general_loop_def)
qed

lemma final_object_untouched:
  assumes "skipped h (obj_ClassName fresh) k \<and> obj_ClassName fresh \<noteq> ''Attachment''
           \<or> k \<notin> fst ` set props"
  shows "attribute_of (final_object h props fresh) k = attribute_of fresh k"
    and "map_of (obj_attributes (final_object h props fresh)) k = map_of (obj_attributes fresh) k"
  using assms
  by (auto simp add: final_object_def general_loop_def write_loop_untouched
        write_loop_bag_untouched)

lemma final_object_name:
  "''Name'' \<notin> fst ` set props \<Longrightarrow> obj_Name (final_object h props fresh) = obj_Name fresh"
  by (simp add: final_object_def general_loop_def write_loop_name)

lemma deserialize_isolated:
  assumes "constructible h data" and "distinct (map fst (Properties data))"
  shows "\<exists>fresh log0 rebuilt log.
           construct h (ClassName data) (Name data) [] (MeshId data) = Inr (fresh, log0)
         \<and> obj_Name fresh = Name data
         \<and> deserializeInstance h data = Inr (rebuilt, log)
         \<and> obj_ClassName rebuilt = ClassName data
         \<and> (\<forall>(k, v) \<in> set (Properties data).
               \<not> skipped h (ClassName data) k \<longrightarrow>
               (case decoded_write h (ClassName data) k v of
                  Inr d \<Rightarrow> k = ''Parent'' \<or> attribute_of rebuilt k = Some d
                | Inl e \<Rightarrow> attribute_of rebuilt k = attribute_of fresh k
                          \<and> (\<exists>nm. PropertyFailed k nm e \<in> set log)
                          \<and> (''Name'' \<in> fst ` set (Properties data)
                               \<or> PropertyFailed k (Name data) e \<in> set log)))
         \<and> (\<forall>k. k \<notin> fst ` set (Properties data)
                  \<longrightarrow> attribute_of rebuilt k = attribute_of fresh k)
         \<and> list_all2 (\<lambda>childData child. \<exists>log'. deserializeInstance h childData = Inr (child, log'))
              (Children data) (GetChildren rebuilt)"
proof (cases data)
  case (SerializedInstance c n props ch m)
  let ?fresh = "\<lambda>a0. Instance c n a0 True []"
  from assms(1) [unfolded SerializedInstance] deserialize_constructible [of h c n props ch m]
  obtain a0 w0 kids log where
    fresh: "construct h c n [] m = Inr (?fresh a0, w0)" and
    res: "deserializeInstance h (SerializedInstance c n props ch m) =
            Inr (add_children (final_object h props (?fresh a0)) kids, log)" and
    fails: "set (map (\<lambda>(k, nm, e). PropertyFailed k nm e)
                  (final_failures h props (?fresh a0))) \<subseteq> set log" and
    kids: "list_all2 (\<lambda>d k. \<exists>l. deserializeInstance h d = Inr (k, l)) ch kids"
    by blast
  let ?rebuilt = "add_children (final_object h props (?fresh a0)) kids"
  from assms(2) SerializedInstance have dist: "distinct (map fst props)" by simp
  have reported: "PropertyFailed k nm e \<in> set log"
    if "(k, nm, e) \<in> set (final_failures h props (?fresh a0))" for k nm e
    using that fails by force
  have each: "case decoded_write h c k v of
                Inr d \<Rightarrow> k = ''Parent'' \<or> attribute_of ?rebuilt k = Some d
              | Inl e \<Rightarrow> attribute_of ?rebuilt k = attribute_of (?fresh a0) k
                        \<and> (\<exists>nm. PropertyFailed k nm e \<in> set log)
                        \<and> (''Name'' \<in> fst ` set props \<or> PropertyFailed k n e \<in> set log)"
    if mem: "(k, v) \<in> set props" and ns: "\<not> skipped h c k" for k v
  proof (cases "decoded_write h c k v")
    case (Inr d)
    show ?thesis
    proof (cases "k = ''Parent''")
      case True
      with Inr show ?thesis by simp
    next
      case False
      from final_object_success [OF dist mem, of h "?fresh a0" d] ns Inr False
      show ?thesis using Inr by simp
    qed
  next
    case (Inl e)
    from final_object_failure [OF dist mem, of h "?fresh a0" e] ns Inl
    obtain nm where a: "attribute_of (final_object h props (?fresh a0)) k = attribute_of (?fresh a0) k"
      and b: "(k, nm, e) \<in> set (final_failures h props (?fresh a0))"
      by auto
    have c: "''Name'' \<in> fst ` set props \<or> PropertyFailed k n e \<in> set log"
    proof (cases "''Name'' \<in> fst ` set props")
      case True
      then show ?thesis by simp
    next
      case False
      from final_object_failure_named [OF False mem, of h "?fresh a0" e] ns Inl
      have "(k, n, e) \<in> set (final_failures h props (?fresh a0))" by simp
      then show ?thesis using reported by blast
    qed
    from a reported [OF b] c Inl show ?thesis by auto
  qed
  have all: "\<forall>(k, v) \<in> set props.
               \<not> skipped h c k \<longrightarrow>
               (case decoded_write h c k v of
                  Inr d \<Rightarrow> k = ''Parent'' \<or> attribute_of ?rebuilt k = Some d
                | Inl e \<Rightarrow> attribute_of ?rebuilt k = attribute_of (?fresh a0) k
                          \<and> (\<exists>nm. PropertyFailed k nm e \<in> set log)
                          \<and> (''Name'' \<in> fst ` set props \<or> PropertyFailed k n e \<in> set log))"
    using each by blast
  have rest: "\<forall>k. k \<notin> fst ` set props \<longrightarrow> attribute_of ?rebuilt k = attribute_of (?fresh a0) k"
    by (simp add: final_object_untouched(1))
  show ?thesis
    unfolding SerializedInstance
    apply (rule exI [of _ "?fresh a0"])
    apply (rule exI [of _ w0])
    apply (rule exI [of _ ?rebuilt])
    apply (rule exI [of _ log])
    using fresh res kids all rest apply (simp cong: sum.case_cong)
    done
qed




text \<open>
  Claim C3, as amended.  Take a node with an attribute tagged \<open>EnumItem\<close> whose enum
  type or member the host does not have, the attribute not being the \<open>MeshId\<close> of a
  mesh part, which the loop passes over without decoding.  The value decoder raises
  the lookup error to its caller, the tree deserializer, which catches it as an
  attribute-scoped failure.  Provided the host can create the object of every node,
  the keys of the properties being distinct as in a table, the top-level call
  returns the object: the failure is reported with the attribute
  name, the name the object has at that moment and the cause; the attribute is
  skipped, keeping the value of the freshly created object; the other attributes
  whose decode and write succeed are set; and all children are deserialized and
  attached, in order.
\<close>

theorem unresolved_enum_is_attribute_scoped:
  assumes "(k, v) \<in> set (Properties data)"
    and "typeIs v ''table''" and "field v ''_type'' = Str ''EnumItem''"
    and "field v ''EnumType'' = Str t" and "field v ''Name'' = Str n"
    and "\<not> enum_member (Enum h) t n"
    and "\<not> skipped h (ClassName data) k"
    and "constructible h data"
    and "distinct (map fst (Properties data))"
  shows "deserializeProperty (Enum h) v = Inl (EnumLookupError t n)
         \<and> (\<exists>fresh log0 rebuilt log.
               construct h (ClassName data) (Name data) [] (MeshId data) = Inr (fresh, log0)
             \<and> deserializeInstance h data = Inr (rebuilt, log)
             \<and> (\<exists>nm. PropertyFailed k nm (EnumLookupError t n) \<in> set log)
             \<and> (''Name'' \<in> fst ` set (Properties data)
                  \<or> PropertyFailed k (Name data) (EnumLookupError t n) \<in> set log)
             \<and> attribute_of rebuilt k = attribute_of fresh k
             \<and> (\<forall>(k', v') \<in> set (Properties data).
                   \<forall>d. \<not> skipped h (ClassName data) k' \<and> k' \<noteq> ''Parent''
                        \<and> decoded_write h (ClassName data) k' v' = Inr d
                        \<longrightarrow> attribute_of rebuilt k' = Some d)
             \<and> list_all2 (\<lambda>childData child. \<exists>log'. deserializeInstance h childData = Inr (child, log'))
                  (Children data) (GetChildren rebuilt))"
proof -
  have dec: "deserializeProperty (Enum h) v = Inl (EnumLookupError t n)"
    using assms(2-6)
    by (auto simp: deserializeProperty_def enum_lookup_def enum_member_def split: option.splits)
  then have dw: "decoded_write h (ClassName data) k v = Inl (EnumLookupError t n)"
    by (simp add: decoded_write_def)
  from deserialize_isolated [OF assms(8,9)] obtain fresh log0 rebuilt log where
    c: "construct h (ClassName data) (Name data) [] (MeshId data) = Inr (fresh, log0)" and
    r: "deserializeInstance h data = Inr (rebuilt, log)" and
    each: "\<forall>(k, v) \<in> set (Properties data).
               \<not> skipped h (ClassName data) k \<longrightarrow>
               (case decoded_write h (ClassName data) k v of
                  Inr d \<Rightarrow> k = ''Parent'' \<or> attribute_of rebuilt k = Some d
                | Inl e \<Rightarrow> attribute_of rebuilt k = attribute_of fresh k
                          \<and> (\<exists>nm. PropertyFailed k nm e \<in> set log)
                          \<and> (''Name'' \<in> fst ` set (Properties data)
                               \<or> PropertyFailed k (Name data) e \<in> set log))" and
    kids: "list_all2 (\<lambda>childData child. \<exists>log'. deserializeInstance h childData = Inr (child, log'))
              (Children data) (GetChildren rebuilt)"
    by blast
  from each assms(1,7) dw have mine:
    "attribute_of rebuilt k = attribute_of fresh k"
    "\<exists>nm. PropertyFailed k nm (EnumLookupError t n) \<in> set log"
    "''Name'' \<in> fst ` set (Properties data)
       \<or> PropertyFailed k (Name data) (EnumLookupError t n) \<in> set log"
    by fastforce+
  have others: "\<forall>(k', v') \<in> set (Properties data).
                   \<forall>d. \<not> skipped h (ClassName data) k' \<and> k' \<noteq> ''Parent''
                        \<and> decoded_write h (ClassName data) k' v' = Inr d
                        \<longrightarrow> attribute_of rebuilt k' = Some d"
    using each by fastforce
  from dec c r mine others kids show ?thesis by blast
qed

theorem unresolved_enum_is_attribute_scoped_witness:
  "(''Material'', stale_enum) \<in> set (Properties stale_enum_node)
   \<and> typeIs stale_enum ''table'' \<and> field stale_enum ''_type'' = Str ''EnumItem''
   \<and> field stale_enum ''EnumType'' = Str ''Material''
   \<and> field stale_enum ''Name'' = Str ''Unobtainium''
   \<and> \<not> enum_member (Enum demo_host) ''Material'' ''Unobtainium''
   \<and> \<not> skipped demo_host (ClassName stale_enum_node) ''Material''
   \<and> constructible demo_host stale_enum_node
   \<and> distinct (map fst (Properties stale_enum_node))
   \<and> deserializeProperty (Enum demo_host) stale_enum
       = Inl (EnumLookupError ''Material'' ''Unobtainium'')
   \<and> deserializeInstance demo_host stale_enum_node
       = Inr (stale_enum_rebuilt,
              [PropertyFailed ''Material'' ''Block'' (EnumLookupError ''Material'' ''Unobtainium'')])
   \<and> attribute_of stale_enum_rebuilt ''Material'' = None
   \<and> attribute_of stale_enum_rebuilt ''Anchored'' = Some (Boolean True)
   \<and> GetChildren stale_enum_rebuilt = [demo_attachment]"
proof -
  have a: "(''Material'', stale_enum) \<in> set (Properties stale_enum_node)" by code_simp
  have b: "typeIs stale_enum ''table''" by code_simp
  have c: "field stale_enum ''_type'' = Str ''EnumItem''" by code_simp
  have d: "field stale_enum ''EnumType'' = Str ''Material''" by code_simp
  have e: "field stale_enum ''Name'' = Str ''Unobtainium''" by code_simp
  have f: "\<not> enum_member (Enum demo_host) ''Material'' ''Unobtainium''" by code_simp
  have g: "\<not> skipped demo_host (ClassName stale_enum_node) ''Material''" by code_simp
  have i: "constructible demo_host stale_enum_node" by code_simp
  have i': "distinct (map fst (Properties stale_enum_node))" by code_simp
  have j: "deserializeInstance demo_host stale_enum_node
       = Inr (stale_enum_rebuilt,
              [PropertyFailed ''Material'' ''Block'' (EnumLookupError ''Material'' ''Unobtainium'')])"
    by code_simp
  have l: "attribute_of stale_enum_rebuilt ''Material'' = None" by code_simp
  have m: "attribute_of stale_enum_rebuilt ''Anchored'' = Some (Boolean True)" by code_simp
  have n: "GetChildren stale_enum_rebuilt = [demo_attachment]" by code_simp
  from unresolved_enum_is_attribute_scoped [OF a b c d e f g i i'] a b c d e f g i i' j l m n
  show ?thesis by blast
qed

text \<open>
  The claim as first stated fails: the lookup error does not abort the call.  The
  call returns the object, with the other attribute set and the child attached, and
  the failed attribute only reported.
\<close>

theorem unresolved_enum_not_fatal:
  "\<not> enum_member (Enum demo_host) ''Material'' ''Unobtainium''
   \<and> deserializeInstance demo_host stale_enum_node
       = Inr (stale_enum_rebuilt,
              [PropertyFailed ''Material'' ''Block'' (EnumLookupError ''Material'' ''Unobtainium'')])"
  by code_simp

text \<open>
  Claim C9, as amended.  For a node whose class name is \<open>MeshPart\<close> and whose
  \<open>MeshId\<close> is present and not the empty string, deserialization first asks the
  mesh importer for the object, with that reference.  If the importer fails, the
  object is created generically by class name and the failure is reported; where
  that creation and the children's succeed, the call returns the object.  Either
  way the loop over \<open>Properties\<close> passes over the key \<open>MeshId\<close>: the rebuilt
  object has the \<open>MeshId\<close> attribute of the object as it was created, and so has
  every attribute that \<open>Properties\<close> does not name.
\<close>

theorem mesh_part_construction:
  assumes "truthy meshId" and "IsA h ''MeshPart'' ''MeshPart''"
    and "list_all (constructible h) children"
  shows "(\<forall>made. import_mesh h meshId = Inr made \<longrightarrow>
            (\<exists>rebuilt log.
               deserializeInstance h (SerializedInstance ''MeshPart'' name properties children meshId)
                 = Inr (rebuilt, log)
             \<and> map_of (obj_attributes rebuilt) ''MeshId'' = map_of (obj_attributes made) ''MeshId''
             \<and> (\<forall>k. k \<notin> fst ` set properties \<longrightarrow>
                    map_of (obj_attributes rebuilt) k = map_of (obj_attributes made) k)))
       \<and> (\<forall>err made. import_mesh h meshId = Inl err \<and> Instance_new h ''MeshPart'' = Inr made \<longrightarrow>
            (\<exists>rebuilt log.
               deserializeInstance h (SerializedInstance ''MeshPart'' name properties children meshId)
                 = Inr (rebuilt, log)
             \<and> MeshPartFailed err \<in> set log
             \<and> map_of (obj_attributes rebuilt) ''MeshId'' = map_of (obj_attributes made) ''MeshId''
             \<and> (\<forall>k. k \<notin> fst ` set properties \<longrightarrow>
                    map_of (obj_attributes rebuilt) k = map_of (obj_attributes made) k)))"
proof -
  let ?data = "SerializedInstance ''MeshPart'' name properties children meshId"
  have sk: "skipped h ''MeshPart'' ''MeshId''" using assms(2) by (simp add: skipped_def)
  have built: "\<exists>rebuilt log. deserializeInstance h ?data = Inr (rebuilt, log)
                 \<and> set w0 \<subseteq> set log
                 \<and> map_of (obj_attributes rebuilt) ''MeshId'' = map_of a0 ''MeshId''
                 \<and> (\<forall>k. k \<notin> fst ` set properties \<longrightarrow> map_of (obj_attributes rebuilt) k = map_of a0 k)"
    if fresh: "construct h ''MeshPart'' name [] meshId = Inr (Instance ''MeshPart'' name a0 True [], w0)"
    for a0 w0
  proof -
    let ?fresh = "Instance ''MeshPart'' name a0 True []"
    from fresh assms(3) have "constructible h ?data" by simp
    from deserialize_constructible [OF this] fresh obtain kids log where
      res: "deserializeInstance h ?data =
              Inr (add_children (final_object h properties ?fresh) kids, log)"
      and w: "set w0 \<subseteq> set log"
      by auto
    have mesh: "map_of (obj_attributes (final_object h properties ?fresh)) ''MeshId''
                  = map_of a0 ''MeshId''"
      using sk final_object_untouched(2) [of h ?fresh "''MeshId''" properties] by simp
    have rest: "map_of (obj_attributes (final_object h properties ?fresh)) k = map_of a0 k"
      if "k \<notin> fst ` set properties" for k
      using that final_object_untouched(2) [of h ?fresh k properties] by simp
    show ?thesis
      using res w mesh rest by simp
  qed
  show ?thesis
  proof (intro conjI allI impI)
    fix made
    assume imp: "import_mesh h meshId = Inr made"
    then obtain a0 where made: "made = Instance ''MeshPart'' ''MeshPart'' a0 True []"
      by (auto simp: import_mesh_def split: option.splits)
    have "construct h ''MeshPart'' name [] meshId = Inr (Instance ''MeshPart'' name a0 True [], [])"
      using imp assms(1) made by (simp add: construct_def)
    from built [OF this] made
    show "\<exists>rebuilt log. deserializeInstance h ?data = Inr (rebuilt, log)
            \<and> map_of (obj_attributes rebuilt) ''MeshId'' = map_of (obj_attributes made) ''MeshId''
            \<and> (\<forall>k. k \<notin> fst ` set properties \<longrightarrow>
                   map_of (obj_attributes rebuilt) k = map_of (obj_attributes made) k)"
      by auto
  next
    fix err made
    assume a: "import_mesh h meshId = Inl err \<and> Instance_new h ''MeshPart'' = Inr made"
    then obtain a0 where made: "made = Instance ''MeshPart'' ''MeshPart'' a0 True []"
      by (auto simp: Instance_new_def split: option.splits)
    have "construct h ''MeshPart'' name [] meshId
            = Inr (Instance ''MeshPart'' name a0 True [], [MeshPartFailed err])"
      using a assms(1) made by (simp add: construct_def)
    from built [OF this] made
    show "\<exists>rebuilt log. deserializeInstance h ?data = Inr (rebuilt, log)
            \<and> MeshPartFailed err \<in> set log
            \<and> map_of (obj_attributes rebuilt) ''MeshId'' = map_of (obj_attributes made) ''MeshId''
            \<and> (\<forall>k. k \<notin> fst ` set properties \<longrightarrow>
                   map_of (obj_attributes rebuilt) k = map_of (obj_attributes made) k)"
      by auto
  qed
qed

theorem mesh_part_construction_witness:
  "truthy (Str ''rbxassetid://123'' :: int val) \<and> truthy (Str ''rbxassetid://404'' :: int val)
   \<and> IsA demo_host ''MeshPart'' ''MeshPart''
   \<and> list_all (constructible demo_host) [demo_attachment_node]
   \<and> import_mesh demo_host (Str ''rbxassetid://123'')
       = Inr (Instance ''MeshPart'' ''MeshPart'' [(''MeshId'', Str ''rbxassetid://123'')] True [])
   \<and> deserializeInstance demo_host
        (SerializedInstance ''MeshPart'' ''Mesh'' mesh_properties [demo_attachment_node]
           (Str ''rbxassetid://123''))
       = Inr (Instance ''MeshPart'' ''Mesh''
                [(''MeshId'', Str ''rbxassetid://123''), (''Anchored'', Boolean True)] True
                [demo_attachment], [])
   \<and> import_mesh demo_host (Str ''rbxassetid://404'') = Inl ImportError
   \<and> Instance_new demo_host ''MeshPart'' = Inr (Instance ''MeshPart'' ''MeshPart'' [] True [])
   \<and> deserializeInstance demo_host
        (SerializedInstance ''MeshPart'' ''Mesh'' mesh_properties [demo_attachment_node]
           (Str ''rbxassetid://404''))
       = Inr (Instance ''MeshPart'' ''Mesh'' [(''Anchored'', Boolean True)] True
                [demo_attachment], [MeshPartFailed ImportError])"
proof -
  have a: "truthy (Str ''rbxassetid://123'' :: int val)" by code_simp
  have a': "truthy (Str ''rbxassetid://404'' :: int val)" by code_simp
  have b: "IsA demo_host ''MeshPart'' ''MeshPart''" by code_simp
  have c: "list_all (constructible demo_host) [demo_attachment_node]" by code_simp
  have d: "import_mesh demo_host (Str ''rbxassetid://123'')
       = Inr (Instance ''MeshPart'' ''MeshPart'' [(''MeshId'', Str ''rbxassetid://123'')] True [])"
    by code_simp
  have e: "deserializeInstance demo_host
        (SerializedInstance ''MeshPart'' ''Mesh'' mesh_properties [demo_attachment_node]
           (Str ''rbxassetid://123''))
       = Inr (Instance ''MeshPart'' ''Mesh''
                [(''MeshId'', Str ''rbxassetid://123''), (''Anchored'', Boolean True)] True
                [demo_attachment], [])"
    by code_simp
  have f: "import_mesh demo_host (Str ''rbxassetid://404'') = Inl ImportError" by code_simp
  have g: "Instance_new demo_host ''MeshPart'' = Inr (Instance ''MeshPart'' ''MeshPart'' [] True [])"
    by code_simp
  have i: "deserializeInstance demo_host
        (SerializedInstance ''MeshPart'' ''Mesh'' mesh_properties [demo_attachment_node]
           (Str ''rbxassetid://404''))
       = Inr (Instance ''MeshPart'' ''Mesh'' [(''Anchored'', Boolean True)] True
                [demo_attachment], [MeshPartFailed ImportError])"
    by code_simp
  from mesh_part_construction [OF a b c, of "''Mesh''" mesh_properties]
    mesh_part_construction [OF a' b c, of "''Mesh''" mesh_properties]
    a a' b c d e f g i
  show ?thesis by blast
qed

text \<open>
  The claim as first stated fails for a node that carries the empty string as its
  \<open>MeshId\<close>, which is what serialization emits for a mesh part without a mesh: the
  importer, though it would answer, is not consulted, and the object is the generic
  one.
\<close>

theorem empty_mesh_reference_not_imported:
  "import_mesh eager_host (Str [])
     = Inr (Instance ''MeshPart'' ''MeshPart'' [(''MeshId'', Str [])] True [])
   \<and> Instance_new eager_host ''MeshPart'' = Inr (Instance ''MeshPart'' ''MeshPart'' [] True [])
   \<and> deserializeInstance eager_host (SerializedInstance ''MeshPart'' ''Mesh'' [] [] (Str []))
     = Inr (Instance ''MeshPart'' ''Mesh'' [] True [], [])"
  by code_simp

section \<open>The tree round trip\<close>

lemma decode_encode_serializable:
  assumes "serializable_kind v" and "enum_resolves E v"
  shows "deserializeProperty E (serializeProperty v) = Inr v"
proof (cases "structured_kind v")
  case True
  then show ?thesis using assms(2) by (rule decode_encode_structured)
next
  case False
  with assms(1) have "serializeProperty v = v \<and> \<not> typeIs v ''table''"
    by (cases v) (simp_all add: structured_kind_def serializable_kind_def typeIs_def)
  then show ?thesis by (simp add: deserializeProperty_def)
qed

lemma final_object_value:
  assumes d: "distinct (map fst props)" and mem: "(k, e) \<in> set props"
    and k: "k \<notin> set IGNORED_PROPERTIES"
    and dec: "deserializeProperty (Enum h) e = Inr v"
    and sk: "skipped h (obj_ClassName fresh) k \<Longrightarrow> map_of (obj_attributes fresh) k = Some v"
    and ok: "\<not> skipped h (obj_ClassName fresh) k \<Longrightarrow> accepts h (obj_ClassName fresh) k v"
  shows "map_of (obj_attributes (final_object h props fresh)) k = Some v"
proof -
  from k have plain: "k \<noteq> ''ClassName''" "k \<noteq> ''Name''" "k \<noteq> ''Archivable''" "k \<noteq> ''Parent''"
    by (auto simp: IGNORED_PROPERTIES_def)
  have dw: "decoded_write h (obj_ClassName fresh) k e
              = (if accepts h (obj_ClassName fresh) k v then Inr v else Inl (WriteError k))"
    using dec plain by (simp add: decoded_write_def writable_def)
  show ?thesis
  proof (cases "skipped h (obj_ClassName fresh) k")
    case False
    with ok dw have "decoded_write h (obj_ClassName fresh) k e = Inr v" by simp
    from final_object_success [OF d mem False this plain(4)]
    show ?thesis using k by (simp add: attribute_of_bag)
  next
    case True
    let ?first = "fst (write_loop h (\<lambda>_. False) props (fresh, []))"
    have first: "attribute_of ?first k = Some v"
    proof (cases "accepts h (obj_ClassName fresh) k v")
      case acc: True
      with dw have "decoded_write h (obj_ClassName fresh) k e = Inr v" by simp
      from write_loop_success
             [where skip = "\<lambda>_. False" and x = fresh and fl = "[]" and h = h and d = v,
              OF d mem _ this plain(4)]
      show ?thesis by simp
    next
      case False
      with dw have "decoded_write h (obj_ClassName fresh) k e = Inl (WriteError k)" by simp
      from write_loop_failure
             [where skip = "\<lambda>_. False" and x = fresh and fl = "[]" and h = h
                and e = "WriteError k", OF d mem _ this]
      show ?thesis using sk [OF True] k by (simp add: attribute_of_bag)
    qed
    let ?start = "if obj_ClassName fresh = ''Attachment'' then ?first else fresh"
    have start: "map_of (obj_attributes ?start) k = Some v"
      using first sk [OF True] k by (simp add: attribute_of_bag)
    have "map_of (obj_attributes (fst (write_loop h (skipped h (obj_ClassName fresh)) props
                                         (?start, [])))) k
            = map_of (obj_attributes ?start) k"
      using True by (intro write_loop_bag_untouched) simp
    with start show ?thesis
      by (simp add: final_object_def general_loop_def)
  qed
qed

lemma children_fetches:
  assumes step: "\<And>x c r c'. x \<in> set ch \<Longrightarrow> fetches http api c
                  \<Longrightarrow> serialize_once h http c x = (r, c') \<Longrightarrow> fetches http api c'"
  shows "fetches http api c \<Longrightarrow> serialize_once_children h http c ch = (r, c')
           \<Longrightarrow> fetches http api c'"
  using step
proof (induction ch arbitrary: c r c')
  case Nil
  then show ?case by simp
next
  case (Cons x ch)
  have tl: "fetches http api c'" if "fetches http api c" "serialize_once_children h http c ch = (r, c')"
    for c r c'
    using that Cons.IH Cons.prems(3) by (meson list.set_intros(2))
  have hd: "fetches http api c'" if "fetches http api c" "serialize_once h http c x = (r, c')"
    for c r c'
    using that Cons.prems(3) by (meson list.set_intros(1))
  show ?case
  proof (cases "Archivable x")
    case False
    with Cons.prems(2) have "serialize_once_children h http c ch = (r, c')" by simp
    from tl [OF Cons.prems(1) this] show ?thesis .
  next
    case True
    obtain r1 c1 where x: "serialize_once h http c x = (r1, c1)"
      by (cases "serialize_once h http c x")
    from hd [OF Cons.prems(1) x] have f1: "fetches http api c1" .
    show ?thesis
    proof (cases r1)
      case (Inl e)
      with x True Cons.prems(2) f1 show ?thesis by simp
    next
      case (Inr s)
      obtain r2 c2 where rest: "serialize_once_children h http c1 ch = (r2, c2)"
        by (cases "serialize_once_children h http c1 ch")
      from tl [OF f1 rest] have "fetches http api c2" .
      with Inr x True Cons.prems(2) rest show ?thesis
        by (auto split: sum.splits)
    qed
  qed
qed

lemma serialize_once_fetches:
  "fetches http api c \<Longrightarrow> serialize_once h http c x = (r, c') \<Longrightarrow> fetches http api c'"
proof (induction x arbitrary: c r c')
  case (Instance className name attrs archivable children)
  let ?x = "Instance className name attrs archivable children"
  show ?case
  proof (cases "read_MeshId h ?x")
    case (Inl e)
    with Instance.prems show ?thesis by simp
  next
    case (Inr m)
    obtain r2 c2 where kids: "serialize_once_children h http (Some api) children = (r2, c2)"
      by (cases "serialize_once_children h http (Some api) children")
    have "fetches http api c2"
      using Instance.IH by (rule children_fetches [OF _ fetches_Some kids])
    with Inr Instance.prems kids show ?thesis
      by (auto simp: fetches_getInstanceProperties split: sum.splits)
  qed
qed

lemma children_round_trip:
  assumes step: "\<And>x. x \<in> set ch \<Longrightarrow> round_trips h http api x"
  shows "fetches http api cache \<Longrightarrow> serialize_once_children h http cache ch = (Inr kids, c')
     \<Longrightarrow> list_all (\<lambda>child. Archivable child \<and> all_archivable child) ch
     \<Longrightarrow> list_all (retained_serializable h api) ch
     \<Longrightarrow> list_all (constructible h) kids \<Longrightarrow> list_all (writes_accepted h) kids
     \<Longrightarrow> list_all (mesh_identity_kept h) kids
     \<Longrightarrow> \<exists>ys log. deserializeChildren h kids = Inr (ys, log) \<and> list_all2 (same_object h api) ch ys"
  using step
proof (induction ch arbitrary: cache kids c')
  case Nil
  then show ?case by auto
next
  case (Cons x ch)
  from Cons.prems(3) have arch: "Archivable x" and ax: "all_archivable x"
    and ach: "list_all (\<lambda>child. Archivable child \<and> all_archivable child) ch" by simp_all
  from Cons.prems(2) arch obtain s c1 ss where
    s: "serialize_once h http cache x = (Inr s, c1)" and
    ss: "serialize_once_children h http c1 ch = (Inr ss, c')" and
    kids: "kids = s # ss"
    by (auto split: prod.splits sum.splits)
  have f1: "fetches http api c1"
    by (rule serialize_once_fetches [OF Cons.prems(1) s])
  have "round_trips h http api x" by (rule Cons.prems(8)) simp
  with Cons.prems(1) s ax Cons.prems(4,5,6,7) kids
  obtain y log where y: "deserializeInstance h s = Inr (y, log)" "same_object h api x y"
    unfolding round_trips_def by fastforce
  have "\<exists>ys log. deserializeChildren h ss = Inr (ys, log) \<and> list_all2 (same_object h api) ch ys"
    using f1 ss ach Cons.prems(4,5,6,7) kids
    by (intro Cons.IH [where cache = c1 and c' = c']) (simp_all add: Cons.prems(8))
  then obtain ys log' where
    ys: "deserializeChildren h ss = Inr (ys, log')" "list_all2 (same_object h api) ch ys"
    by blast
  from y ys kids show ?case by simp
qed

lemma instance_round_trip: "round_trips h http api x"
proof (induction x)
  case (Instance c n a ar ch)
  let ?x = "Instance c n a ar ch"
  show ?case
    unfolding round_trips_def
  proof (intro allI impI)
    fix cache node c'
    assume f: "fetches http api cache"
      and ser: "serialize_once h http cache ?x = (Inr node, c')"
      and arch: "all_archivable ?x"
      and kinds: "retained_serializable h api ?x"
      and con: "constructible h node"
      and acc: "writes_accepted h node"
      and mesh: "mesh_identity_kept h node"
    let ?d = "discover h api ?x"
    from ser f obtain m kids where
      node: "node = SerializedInstance c n ?d kids m" and
      kids: "serialize_once_children h http (Some api) ch = (Inr kids, c')"
      by (auto simp: fetches_getInstanceProperties split: sum.splits prod.splits)
    have "\<exists>ys log. deserializeChildren h kids = Inr (ys, log)
            \<and> list_all2 (same_object h api) ch ys"
      using kids arch kinds con acc mesh node
      by (intro children_round_trip [where cache = "Some api" and c' = c'])
         (simp_all add: Instance.IH)
    then obtain ys wk where
      ys: "deserializeChildren h kids = Inr (ys, wk)" "list_all2 (same_object h api) ch ys"
      by blast
    from con node obtain fresh w0 where "construct h c n [] m = Inr (fresh, w0)"
      by (auto split: sum.splits)
    with construct_fresh [OF this] obtain a0 where
      fresh: "construct h c n [] m = Inr (Instance c n a0 True [], w0)" by auto
    let ?fresh = "Instance c n a0 True []"
    let ?rebuilt = "add_children (final_object h ?d ?fresh) ys"
    from deserializeInstance_built [OF fresh ys(1), of ?d] obtain log where
      res: "deserializeInstance h node = Inr (?rebuilt, log)"
      using node by auto
    have attrs: "map_of (obj_attributes (final_object h ?d ?fresh)) k = map_of a k"
      if mem: "(k, e) \<in> set ?d" for k e
    proof -
      from discover_member [OF mem] obtain v where
        ign: "k \<notin> set IGNORED_PROPERTIES" and
        v: "map_of a k = Some v" "v \<noteq> Undefined" "e = serializeProperty v" by auto
      from kinds mem v(1) have "serializable_kind v" "enum_resolves (Enum h) v"
        by (auto simp: list_all_iff)
      then have dec: "deserializeProperty (Enum h) e = Inr v"
        unfolding v(3) by (rule decode_encode_serializable)
      have sk: "map_of (obj_attributes ?fresh) k = Some v" if "skipped h (obj_ClassName ?fresh) k"
      proof -
        from that have k: "k = ''MeshId''" by (simp add: skipped_def)
        from mem distinct_discover [of h api ?x] have "map_of ?d k = Some e" by simp
        with mesh node that fresh dec show ?thesis
          by (simp add: k)
      qed
      have ok: "accepts h (obj_ClassName ?fresh) k v" if "\<not> skipped h (obj_ClassName ?fresh) k"
        using acc node mem that dec by (auto simp: list_all_iff)
      show ?thesis
        using final_object_value [OF distinct_discover mem ign dec sk ok] v(1) by simp
    qed
    have nm: "obj_Name (final_object h ?d ?fresh) = n"
    proof -
      have "''Name'' \<notin> fst ` set ?d"
      proof
        assume "''Name'' \<in> fst ` set ?d"
        then obtain e where "(''Name'', e) \<in> set ?d" by auto
        from discover_member [OF this] show False by (simp add: IGNORED_PROPERTIES_def)
      qed
      then show ?thesis by (simp add: final_object_name)
    qed
    have "same_object h api ?x ?rebuilt"
      using ys(2) attrs nm by (auto simp: list_all_iff)
    with res show "\<exists>y log. deserializeInstance h node = Inr (y, log) \<and> same_object h api ?x y"
      by blast
  qed
qed

text \<open>
  Claim C2.  Take a live object tree in which every descendant is archivable and every
  attribute discovery retains is of a serializable kind, an enumeration member being
  one the host resolves.  Let the catalog fetch succeed and serialization give a node;
  let the host be able to create the object of every node, accept every write the
  loop attempts, and give a mesh part the mesh identity it was built for.  Then
  deserializing the node returns an object tree with the same class names and names,
  the same value for every retained attribute, and the same children in number and
  order, at every level.
\<close>

theorem tree_round_trip:
  assumes "fetches http api cache"
    and "serializeInstance h http cache x = (Inr node, c')"
    and "all_archivable x" and "retained_serializable h api x"
    and "constructible h node" and "writes_accepted h node" and "mesh_identity_kept h node"
  shows "\<exists>rebuilt log. deserializeInstance h node = Inr (rebuilt, log) \<and> same_object h api x rebuilt"
  using instance_round_trip [of h http api x] assms
  unfolding round_trips_def instance_single_pass by blast

theorem tree_round_trip_witness:
  "fetches (Inr demo_catalog) demo_catalog None
   \<and> serializeInstance demo_host (Inr demo_catalog) None demo_tree
       = (Inr demo_node, Some demo_catalog)
   \<and> all_archivable demo_tree
   \<and> retained_serializable demo_host demo_catalog demo_tree
   \<and> constructible demo_host demo_node
   \<and> writes_accepted demo_host demo_node
   \<and> mesh_identity_kept demo_host demo_node
   \<and> deserializeInstance demo_host demo_node = Inr (demo_rebuilt, [])
   \<and> same_object demo_host demo_catalog demo_tree demo_rebuilt"
proof -
  have a: "fetches (Inr demo_catalog) demo_catalog None" by code_simp
  have b: "serializeInstance demo_host (Inr demo_catalog) None demo_tree
             = (Inr demo_node, Some demo_catalog)"
    by code_simp
  have c: "all_archivable demo_tree" by code_simp
  have d: "retained_serializable demo_host demo_catalog demo_tree" by code_simp
  have e: "constructible demo_host demo_node" by code_simp
  have f: "writes_accepted demo_host demo_node" by code_simp
  have g: "mesh_identity_kept demo_host demo_node" by code_simp
  have i: "deserializeInstance demo_host demo_node = Inr (demo_rebuilt, [])" by code_simp
  from tree_round_trip [OF a b c d e f g] a b c d e f g i
  show ?thesis by auto
qed

end
